theory Spec2Isabelle
  imports Main "HOL-Library.List_Lexorder"
begin

section \<open>Python strings\<close>

text \<open>
  A Python \<open>str\<close> is modelled as a \<open>string\<close> whose characters are the code points
  below 256. Only the string methods that \<open>setup.py\<close> calls are modelled.
\<close>

text \<open>
  \<open>split_by P s\<close> cuts \<open>s\<close> at every character satisfying \<open>P\<close>; like Python's
  \<open>s.split(sep)\<close> it keeps empty fields and always returns at least one field.
\<close>

fun split_by :: "(char \<Rightarrow> bool) \<Rightarrow> string \<Rightarrow> string list" where
  "split_by P [] = [[]]"
| "split_by P (c # cs) =
     (if P c then [] # split_by P cs
      else (case split_by P cs of [] \<Rightarrow> [[c]] | w # ws \<Rightarrow> (c # w) # ws))"

text \<open>\<open>s.split(sep)\<close> for a separator of one character.\<close>

definition split_on :: "char \<Rightarrow> string \<Rightarrow> string list" where
  "split_on sep s = split_by (\<lambda>c. c = sep) s"

text \<open>
  \<open>str.isspace\<close> on one character, for the code points below 256: tab, line feed,
  vertical tab, form feed, carriage return, the four separators 28 to 31, space,
  next-line (133) and no-break space (160).
\<close>

definition isspace :: "char \<Rightarrow> bool" where
  "isspace c =
     (let n = (of_char c :: nat)
      in (9 \<le> n \<and> n \<le> 13) \<or> (28 \<le> n \<and> n \<le> 32) \<or> n = 133 \<or> n = 160)"

text \<open>\<open>s.split()\<close> without argument: the maximal runs of non-whitespace characters.\<close>

definition split_ws :: "string \<Rightarrow> string list" where
  "split_ws s = filter (\<lambda>w. w \<noteq> []) (split_by isspace s)"

text \<open>\<open>s.replace(old, new)\<close> for an \<open>old\<close> of one character.\<close>

definition replace :: "char \<Rightarrow> string \<Rightarrow> string \<Rightarrow> string" where
  "replace old new s = concat (map (\<lambda>c. if c = old then new else [c]) s)"

definition startswith :: "string \<Rightarrow> string \<Rightarrow> bool" where
  "startswith s p = (take (length p) s = p)"

definition endswith :: "string \<Rightarrow> string \<Rightarrow> bool" where
  "endswith s x = (length x \<le> length s \<and> drop (length s - length x) s = x)"

text \<open>\<open>sep.join(xs)\<close>.\<close>

fun join :: "string \<Rightarrow> string list \<Rightarrow> string" where
  "join sep [] = []"
| "join sep [x] = x"
| "join sep (x # y # ys) = x @ sep @ join sep (y # ys)"

section \<open>Interpreter state: list objects and standard output\<close>

text \<open>
  Python lists are mutable objects. The script builds several of them and later extends
  some in place, so lists live in a store: a reference is an index into \<open>heap\<close>, and a
  new list object is allocated at the end of the store. \<open>stdout\<close> holds the lines
  printed so far.
\<close>

type_synonym ref = nat

record state =
  heap :: "string list list"
  stdout :: "string list"

definition alloc :: "string list \<Rightarrow> state \<Rightarrow> ref \<times> state" where
  "alloc xs st = (length (heap st), st\<lparr>heap := heap st @ [xs]\<rparr>)"

text \<open>\<open>xs.extend(ys)\<close> on the list object \<open>r\<close>.\<close>

definition list_extend :: "ref \<Rightarrow> string list \<Rightarrow> state \<Rightarrow> state" where
  "list_extend r ys st = st\<lparr>heap := (heap st)[r := heap st ! r @ ys]\<rparr>"

definition print :: "string \<Rightarrow> state \<Rightarrow> state" where
  "print s st = st\<lparr>stdout := stdout st @ [s]\<rparr>"

section \<open>Architecture flags\<close>

definition SUPPORTED_ARCHS :: "string set" where
  "SUPPORTED_ARCHS = {''8.0'', ''8.6'', ''8.9'', ''9.0''}"

text \<open>
  The body of the \<open>for arch in compute_capabilities\<close> loop of \<open>get_arch_flags\<close>, on the
  list object \<open>arch_flags\<close>.
\<close>

fun arch_loop :: "ref \<Rightarrow> string list \<Rightarrow> state \<Rightarrow> state" where
  "arch_loop arch_flags [] st = st"
| "arch_loop arch_flags (arch # rest) st =
     (if arch = [] then arch_loop arch_flags rest st
      else if arch \<in> SUPPORTED_ARCHS then
        (let num = replace CHR ''.'' [] arch
         in arch_loop arch_flags rest
              (list_extend arch_flags
                 [''-gencode'', ''arch=compute_'' @ num @ '',code=sm_'' @ num] st))
      else arch_loop arch_flags rest
             (print (''Warning: Unsupported architecture '' @ arch @ '' will be ignored'') st))"

text \<open>
  \<open>get_arch_flags\<close>. The process environment is a map from variable names to values;
  \<open>os.environ.get(k, "")\<close> is the value or the empty string.
\<close>

definition environ_get :: "(string \<rightharpoonup> string) \<Rightarrow> string \<Rightarrow> string \<Rightarrow> string" where
  "environ_get environ k d = (case environ k of None \<Rightarrow> d | Some v \<Rightarrow> v)"

definition get_arch_flags :: "(string \<rightharpoonup> string) \<Rightarrow> state \<Rightarrow> ref \<times> state" where
  "get_arch_flags environ st =
     (let (arch_flags, st1) = alloc [] st;
          compute_capabilities =
            split_on CHR '';''
              (replace CHR '' '' '';'' (environ_get environ ''TORCH_CUDA_ARCH_LIST'' []))
      in (arch_flags, arch_loop arch_flags compute_capabilities st1))"

section \<open>Errors\<close>

text \<open>
  Every exception the modelled code can raise is a value. \<open>SubprocessError\<close> stands for
  whatever \<open>subprocess.check_output\<close> raises (a non-zero exit status, a file that
  cannot be executed); its text is chosen by the host.
\<close>

datatype error =
    RuntimeError string
  | IndexError
  | KeyError string
  | InvalidVersion string
  | FileNotFoundError string
  | IsADirectoryError string
  | SubprocessError string

section \<open>Versions\<close>

text \<open>
  \<open>packaging.version\<close> is a third-party library, so the model takes it as a
  parameter: \<open>parse\<close> is \<open>packaging.version.parse\<close> (and the constructor
  \<open>Version\<close>, which it calls), with \<open>None\<close> for the exception \<open>InvalidVersion\<close>;
  \<open>str_version\<close> is \<open>str\<close> on a version. Versions are compared with \<open><\<close>; the
  library's comparison is a total preorder (\<open>12.0\<close> and \<open>12.0.0\<close> compare equal), so the
  type of versions is taken from the class \<open>preorder\<close>.
\<close>

record 'v packaging =
  parse :: "string \<Rightarrow> 'v option"
  str_version :: "'v \<Rightarrow> string"

section \<open>Paths and the file system\<close>

text \<open>
  \<open>pathlib\<close> and the operating system are modelled in their POSIX flavour: the
  separator is \<open>/\<close> and names are compared case-sensitively.

  A path is an anchor (empty for a relative path, \<open>/\<close> or \<open>//\<close> otherwise) and a
  list of components. \<open>Path s\<close> parses a string as \<open>pathlib\<close> does: empty components and
  \<open>.\<close> components disappear, \<open>..\<close> stays.
\<close>

record path =
  anchor :: string
  parts :: "string list"

definition Path :: "string \<Rightarrow> path" where
  "Path s =
     \<lparr>anchor =
        (if startswith s ''//'' \<and> \<not> startswith s ''///'' then ''//''
         else if startswith s ''/'' then ''/'' else []),
      parts = filter (\<lambda>c. c \<noteq> [] \<and> c \<noteq> ''.'') (split_on CHR ''/'' s)\<rparr>"

text \<open>\<open>p / c\<close> for a single component \<open>c\<close>.\<close>

definition joinpath :: "path \<Rightarrow> string \<Rightarrow> path" where
  "joinpath p c = p\<lparr>parts := parts p @ [c]\<rparr>"

text \<open>\<open>str(p)\<close> and \<open>p.name\<close>.\<close>

definition str :: "path \<Rightarrow> string" where
  "str p = (if anchor p = [] \<and> parts p = [] then ''.'' else anchor p @ join ''/'' (parts p))"

definition path_name :: "path \<Rightarrow> string" where
  "path_name p = (if parts p = [] then [] else last (parts p))"

text \<open>
  The file system is a finite tree. A regular file carries its text; a directory lists
  its entries in the order in which the system enumerates them (names within one
  directory are distinct on a real system); a symbolic link carries the node it
  resolves to, or is dangling. Devices, sockets and links that lead back to an ancestor
  are outside the model.
\<close>

datatype node =
    File string
  | Dir "(string \<times> node) list"
  | Symlink node
  | Dangling

record filesystem =
  root :: node
  cwd :: "string list"

text \<open>Following symbolic links, as \<open>stat\<close> does.\<close>

fun follow :: "node \<Rightarrow> node" where
  "follow (Symlink t) = follow t"
| "follow n = n"

text \<open>
  Path resolution walks the components from a stack of the directories entered so far
  (innermost first), so that \<open>..\<close> steps back; at the root it stays. Links in the middle of
  a path are followed. After a link, \<open>..\<close> steps back to the directory that holds the
  link, since the tree does not record where a link's target lives.
\<close>

fun walk :: "node list \<Rightarrow> string list \<Rightarrow> node list option" where
  "walk stack [] = Some stack"
| "walk [] (c # cs) = None"
| "walk (n # up) (c # cs) =
     (case follow n of
        Dir es \<Rightarrow>
          (if c = ''..'' then walk (if up = [] then [n] else up) cs
           else (case map_of es c of None \<Rightarrow> None | Some m \<Rightarrow> walk (m # n # up) cs))
      | _ \<Rightarrow> None)"

definition resolve :: "filesystem \<Rightarrow> path \<Rightarrow> node option" where
  "resolve fs p =
     (case walk [root fs] ((if anchor p = [] then cwd fs else []) @ parts p) of
        Some (n # _) \<Rightarrow> Some n
      | _ \<Rightarrow> None)"

text \<open>\<open>p.exists()\<close>, and \<open>is_file()\<close> on the node a path denotes.\<close>

definition exists :: "filesystem \<Rightarrow> path \<Rightarrow> bool" where
  "exists fs p = (case resolve fs p of None \<Rightarrow> False | Some n \<Rightarrow> follow n \<noteq> Dangling)"

definition is_file :: "node \<Rightarrow> bool" where
  "is_file n = (case follow n of File _ \<Rightarrow> True | _ \<Rightarrow> False)"

text \<open>
  The recursive wildcard of \<open>rglob\<close>: in each directory the entries whose name matches,
  in enumeration order, then the same for each sub-directory in turn. A symbolic link to
  a directory can match by its name but is not entered. Each path comes with the node
  of its directory entry, on which \<open>is_file\<close> is then decided.
\<close>

fun rglob_from :: "(string \<Rightarrow> bool) \<Rightarrow> path \<Rightarrow> node \<Rightarrow> (path \<times> node) list" where
  "rglob_from m p (Dir es) =
     [(joinpath p c, n). (c, n) \<leftarrow> es, m c] @
     concat (map (\<lambda>(c, n). rglob_from m (joinpath p c) n) es)"
| "rglob_from m p n = []"

text \<open>
  \<open>base_path.rglob("*.cu")\<close>: nothing unless the base path is a directory (through links);
  the pattern matches the names that end in \<open>.cu\<close>.
\<close>

definition rglob_cu :: "filesystem \<Rightarrow> path \<Rightarrow> (path \<times> node) list" where
  "rglob_cu fs base_path =
     (case resolve fs base_path of
        None \<Rightarrow> []
      | Some n \<Rightarrow> rglob_from (\<lambda>c. endswith c ''.cu'') base_path (follow n))"


section \<open>The host\<close>

text \<open>
  What the script reads from its surroundings: the constant \<open>CUDA_HOME\<close> that
  \<open>torch.utils.cpp_extension\<close> exports, the process environment \<open>os.environ\<close>,
  \<open>sys.platform\<close>, the file system, and \<open>subprocess.check_output(cmd, text=True)\<close>
  as a function from the command line to the text printed or the exception raised.
\<close>

record host =
  CUDA_HOME :: "string option"
  environ :: "string \<rightharpoonup> string"
  platform :: string
  files :: filesystem
  check_output :: "string list \<Rightarrow> error + string"

section \<open>Toolchain validation\<close>

text \<open>
  The expression \<open>nvcc_version.split()[-2].split(",")[0]\<close>. Indexing a list of fewer than
  two fields with \<open>-2\<close> raises \<open>IndexError\<close>; \<open>split(",")\<close> never returns an empty list.
\<close>

definition version_token :: "string \<Rightarrow> error + string" where
  "version_token nvcc_version =
     (let words = split_ws nvcc_version
      in if length words < 2 then Inl IndexError
         else (case split_on CHR '','' (words ! (length words - 2)) of
                 [] \<Rightarrow> Inl IndexError
               | x # _ \<Rightarrow> Inr x))"

definition validate_cuda_installation ::
  "('v::preorder) packaging \<Rightarrow> 'v \<Rightarrow> host \<Rightarrow> error + unit" where
  "validate_cuda_installation pk MIN_CUDA_VERSION w =
     (case CUDA_HOME w of
        None \<Rightarrow> Inl (RuntimeError ''CUDA_HOME not found. CUDA 12.0+ required'')
      | Some home \<Rightarrow>
          (let nvcc_path = joinpath (joinpath (Path home) ''bin'') ''nvcc''
           in if \<not> exists (files w) nvcc_path
              then Inl (RuntimeError (''nvcc not found at '' @ str nvcc_path))
              else
                (case check_output w [str nvcc_path, ''--version''] of
                   Inl e \<Rightarrow> Inl e
                 | Inr nvcc_version \<Rightarrow>
                     (case version_token nvcc_version of
                        Inl e \<Rightarrow> Inl e
                      | Inr version_str \<Rightarrow>
                          (case parse pk version_str of
                             None \<Rightarrow> Inl (InvalidVersion version_str)
                           | Some cuda_version \<Rightarrow>
                               if cuda_version < MIN_CUDA_VERSION
                               then Inl (RuntimeError
                                      (''Requires CUDA '' @ str_version pk MIN_CUDA_VERSION @
                                       ''+, found '' @ str_version pk cuda_version))
                               else Inr ())))))"

section \<open>Source discovery\<close>

text \<open>
  The list comprehension of \<open>collect_sources\<close> for one \<open>src_dir\<close>, then the loop that
  extends the list object \<open>sources\<close> root by root.
\<close>

definition found :: "filesystem \<Rightarrow> string \<Rightarrow> string list" where
  "found fs src_dir =
     (let base_path = Path src_dir
      in [str p. (p, n) \<leftarrow> rglob_cu fs base_path,
                 is_file n \<and> \<not> startswith (path_name p) ''.''])"

fun collect_loop :: "filesystem \<Rightarrow> ref \<Rightarrow> string list \<Rightarrow> state \<Rightarrow> state" where
  "collect_loop fs sources [] st = st"
| "collect_loop fs sources (src_dir # rest) st =
     collect_loop fs sources rest (list_extend sources (found fs src_dir) st)"

definition collect_sources :: "filesystem \<Rightarrow> string list \<Rightarrow> state \<Rightarrow> ref \<times> state" where
  "collect_sources fs src_dirs st =
     (let (sources, st1) = alloc [] st
      in (sources, collect_loop fs sources src_dirs st1))"

section \<open>Extension targets\<close>

definition PROJECT_NAME :: string where
  "PROJECT_NAME = ''spas_sage_attn''"


text \<open>
  A \<open>CUDAExtension\<close> keeps the objects it is given: its \<open>sources\<close> list and the two lists
  of the dictionary \<open>extra_compile_args\<close>, under the keys \<open>cxx\<close> and \<open>nvcc\<close>, all three as
  references into the store.
\<close>

record CUDAExtension =
  name :: string
  sources :: ref
  cxx :: ref
  nvcc :: ref

text \<open>
  The list \<open>extensions\<close>. A list display allocates a new list object; a starred element
  copies the elements of the list it unpacks.
\<close>

definition extensions :: "host \<Rightarrow> state \<Rightarrow> CUDAExtension list \<times> state" where
  "extensions w st0 =
     (let (found_qattn, st1) =
            collect_sources (files w)
              [''csrc/qattn'', ''csrc/qattn/instantiations_sm80'',
               ''csrc/qattn/instantiations_sm89''] st0;
          (sources_qattn, st2) = alloc (''csrc/qattn/pybind.cpp'' # heap st1 ! found_qattn) st1;
          (cxx_qattn, st3) = alloc [''-O3'', ''-fopenmp'', ''-std=c++17''] st2;
          (flags_qattn, st4) = get_arch_flags (environ w) st3;
          (nvcc_qattn, st5) =
            alloc ([''-O3'', ''-std=c++17'', ''--use_fast_math'', ''--threads=8'']
                   @ heap st4 ! flags_qattn) st4;
          (sources_fused, st6) = collect_sources (files w) [''csrc/fused''] st5;
          (cxx_fused, st7) = alloc [''-O3'', ''-fopenmp'', ''-std=c++17''] st6;
          (flags_fused, st8) = get_arch_flags (environ w) st7;
          (nvcc_fused, st9) =
            alloc ([''-O3'', ''-std=c++17'', ''--use_fast_math''] @ heap st8 ! flags_fused) st8
      in ([\<lparr>name = PROJECT_NAME @ ''._qattn'', sources = sources_qattn,
             cxx = cxx_qattn, nvcc = nvcc_qattn\<rparr>,
           \<lparr>name = PROJECT_NAME @ ''._fused'', sources = sources_fused,
             cxx = cxx_fused, nvcc = nvcc_fused\<rparr>],
          st9))"

section \<open>Platform override\<close>

text \<open>The loop \<open>for ext in extensions\<close> of the \<open>win32\<close> branch.\<close>

fun override_loop :: "CUDAExtension list \<Rightarrow> state \<Rightarrow> state" where
  "override_loop [] st = st"
| "override_loop (ext # rest) st =
     override_loop rest (list_extend (nvcc ext) [''-Xcompiler=/MD'', ''-Xcompiler=/wd4819''] st)"

text \<open>The conditional on \<open>sys.platform\<close>; it returns the dictionary \<open>extras\<close>.\<close>

definition platform_override ::
  "string \<Rightarrow> CUDAExtension list \<Rightarrow> state \<Rightarrow> (string \<rightharpoonup> string list) \<times> state" where
  "platform_override sys_platform exts st =
     (if sys_platform = ''win32''
      then ([''triton'' \<mapsto> [''triton-windows>=3.3.1'']], override_loop exts st)
      else ([''triton'' \<mapsto> [''triton>=3.2.0'']], st))"

section \<open>Emission\<close>




section \<open>The Windows shim\<close>

text \<open>
  \<open>os.path.expandvars\<close> on the literal \<open>%LOCALAPPDATA%\triton_cache\<close>: the variable is
  replaced by its value, and left as it stands when it is not set.
\<close>

definition triton_cache_dir :: "(string \<rightharpoonup> string) \<Rightarrow> string" where
  "triton_cache_dir env =
     (case env ''LOCALAPPDATA'' of None \<Rightarrow> ''%LOCALAPPDATA%'' | Some v \<Rightarrow> v)
     @ [CHR 0x5C] @ ''triton_cache''"

text \<open>
  \<open>configure_for_windows\<close>, from \<open>platform.system()\<close> and the environment to the
  exception raised, if any, and the environment it leaves. Reading a variable that is
  not set raises \<open>KeyError\<close>; the augmented assignment reads \<open>PATH\<close> before it evaluates
  its right-hand side.
\<close>

definition configure_for_windows ::
  "string \<Rightarrow> (string \<rightharpoonup> string) \<Rightarrow> error option \<times> (string \<rightharpoonup> string)" where
  "configure_for_windows system env =
     (if system = ''Windows'' then
        (let env1 = env(''TRITON_CACHE_DIR'' \<mapsto> triton_cache_dir env)
         in (case env1 ''PATH'' of
               None \<Rightarrow> (Some (KeyError ''PATH''), env1)
             | Some old \<Rightarrow>
                 (case env1 ''CUDA_PATH'' of
                    None \<Rightarrow> (Some (KeyError ''CUDA_PATH''), env1)
                  | Some cuda \<Rightarrow>
                      (None, env1(''PATH'' \<mapsto> old @ '';'' @ cuda @ [CHR 0x5C] @ ''bin'')))))
      else (None, env))"

section \<open>The specification's vocabulary\<close>

text \<open>
  The definitions of this section follow the words of the specification, not the code;
  the theorems below compare the code with them.

  The flag pair of an architecture identifier: the identifier without its dot is the
  compact numeric code, used for the virtual and for the real architecture.
\<close>

definition flag_pair :: "string \<Rightarrow> string list" where
  "flag_pair arch =
     (let code = filter (\<lambda>c. c \<noteq> CHR ''.'') arch
      in [''-gencode'', ''arch=compute_'' @ code @ '',code=sm_'' @ code])"

definition warning_line :: "string \<Rightarrow> string" where
  "warning_line arch = ''Warning: Unsupported architecture '' @ arch @ '' will be ignored''"

text \<open>
  One flag pair for each supported token, in order and with repetitions; one warning for
  each token that is not empty and not supported.
\<close>

definition flags_of :: "string list \<Rightarrow> string list" where
  "flags_of toks = concat (map flag_pair (filter (\<lambda>a. a \<in> SUPPORTED_ARCHS) toks))"

definition warnings_of :: "string list \<Rightarrow> string list" where
  "warnings_of toks =
     map warning_line (filter (\<lambda>a. a \<noteq> [] \<and> a \<notin> SUPPORTED_ARCHS) toks)"

text \<open>
  The tokens of an architecture list whose identifiers are separated by whitespace or
  semicolons, and the tokens it has when only the space character and the semicolon
  separate.
\<close>

definition whitespace_tokens :: "string \<Rightarrow> string list" where
  "whitespace_tokens v =
     filter (\<lambda>t. t \<noteq> []) (split_by (\<lambda>c. isspace c \<or> c = CHR '';'') v)"

definition space_tokens :: "string \<Rightarrow> string list" where
  "space_tokens v =
     filter (\<lambda>t. t \<noteq> []) (split_by (\<lambda>c. c = CHR '' '' \<or> c = CHR '';'') v)"

text \<open>
  \<open>below es cs n\<close>: from a directory with the entries \<open>es\<close>, the relative path \<open>cs\<close>
  leads to the entry \<open>n\<close>, entering real directories only.
\<close>

inductive below :: "(string \<times> node) list \<Rightarrow> string list \<Rightarrow> node \<Rightarrow> bool" where
  entry: "(c, n) \<in> set es \<Longrightarrow> below es [c] n"
| deeper: "(c, Dir es') \<in> set es \<Longrightarrow> below es' cs n \<Longrightarrow> below es (c # cs) n"

text \<open>
  What a directory entry is when symbolic links are looked through: a regular file, or
  a directory with its entries. A dangling link is neither.
\<close>

fun regular :: "node \<Rightarrow> bool" where
  "regular (File content) = True"
| "regular (Dir es) = False"
| "regular (Symlink t) = regular t"
| "regular Dangling = False"

fun entries :: "node \<Rightarrow> (string \<times> node) list option" where
  "entries (File content) = None"
| "entries (Dir es) = Some es"
| "entries (Symlink t) = entries t"
| "entries Dangling = None"

text \<open>
  The compiler executable \<open>bin/nvcc\<close> under a toolchain root, and the version token of
  a version banner: its second-to-last whitespace-separated field, cut at the first
  comma.
\<close>

definition nvcc_under :: "string \<Rightarrow> path" where
  "nvcc_under home = joinpath (joinpath (Path home) ''bin'') ''nvcc''"

definition banner_token :: "string \<Rightarrow> string" where
  "banner_token out = takeWhile (\<lambda>c. c \<noteq> CHR '','') (rev (split_ws out) ! 1)"

text \<open>
  The tokens that \<open>get_arch_flags\<close> loops over, and what the two targets list as their
  sources: the entry point followed by what is found under the three roots of
  \<open>_qattn\<close>, and what is found under the root of \<open>_fused\<close>.
\<close>

definition arch_tokens :: "(string \<rightharpoonup> string) \<Rightarrow> string list" where
  "arch_tokens env =
     split_on CHR '';'' (replace CHR '' '' '';'' (environ_get env ''TORCH_CUDA_ARCH_LIST'' []))"

definition qattn_found :: "filesystem \<Rightarrow> string list" where
  "qattn_found fs =
     found fs ''csrc/qattn'' @ found fs ''csrc/qattn/instantiations_sm80'' @
     found fs ''csrc/qattn/instantiations_sm89''"

section \<open>A version library for the examples\<close>

text \<open>
  An instance of the interface \<open>packaging\<close> for the concrete examples: versions that are
  plain release numbers such as \<open>12.0\<close>, compared as \<open>packaging\<close> compares them
  (component by component, trailing zeros ignored). A string that is not of this form
  has no version here; the examples use such a string only where the real library
  rejects it too.
\<close>

datatype release = Release "nat list"

fun release_key :: "release \<Rightarrow> nat list" where
  "release_key (Release ns) = rev (dropWhile (\<lambda>n. n = 0) (rev ns))"

instantiation release :: preorder
begin

definition less_eq_release :: "release \<Rightarrow> release \<Rightarrow> bool" where
  "less_eq_release a b = (release_key a \<le> release_key b)"

definition less_release :: "release \<Rightarrow> release \<Rightarrow> bool" where
  "less_release a b = (release_key a < release_key b)"

instance
  by standard (auto simp: less_eq_release_def less_release_def)

end

definition isdigit :: "char \<Rightarrow> bool" where
  "isdigit c = (let n = (of_char c :: nat) in 48 \<le> n \<and> n \<le> 57)"

definition nat_of_digits :: "string \<Rightarrow> nat" where
  "nat_of_digits ds = foldl (\<lambda>a c. 10 * a + (of_char c - 48)) 0 ds"

definition parse_release :: "string \<Rightarrow> release option" where
  "parse_release s =
     (let segs = split_on CHR ''.'' s
      in if list_all (\<lambda>f. f \<noteq> [] \<and> list_all isdigit f) segs
         then Some (Release (map nat_of_digits segs)) else None)"

function digits_of_nat :: "nat \<Rightarrow> string" where
  "digits_of_nat n =
     (if n < 10 then [''0123456789'' ! n]
      else digits_of_nat (n div 10) @ [''0123456789'' ! (n mod 10)])"
  by pat_completeness auto
termination
  by (relation "measure id") auto

declare digits_of_nat.simps [simp del]

fun str_release :: "release \<Rightarrow> string" where
  "str_release (Release ns) = join ''.'' (map digits_of_nat ns)"

definition release_packaging :: "release packaging" where
  "release_packaging = \<lparr>parse = parse_release, str_version = str_release\<rparr>"

section \<open>Example hosts\<close>

text \<open>
  The last line of the banner that \<open>nvcc --version\<close> prints, in the layout the parser
  expects, and a banner that ends with a build line.
\<close>

definition release_banner :: "string \<Rightarrow> string" where
  "release_banner v =
     ''nvcc: NVIDIA (R) Cuda compiler driver'' @ [CHR 0x0A] @
     ''Cuda compilation tools, release '' @ v @ '', V'' @ v @ ''.76'' @ [CHR 0x0A]"


text \<open>
  The directory of the specification's example: \<open>a.cu\<close>, \<open>.hidden.cu\<close>, \<open>sub/b.cu\<close> and
  \<open>notes.txt\<close>.
\<close>

definition example_dir :: node where
  "example_dir =
     Dir [(''a.cu'', File []), (''.hidden.cu'', File []),
          (''sub'', Dir [(''b.cu'', File [])]), (''notes.txt'', File [])]"

definition example_files :: filesystem where
  "example_files = \<lparr>root = Dir [(''proj'', example_dir)], cwd = [''proj'']\<rparr>"

text \<open>
  A directory with entries of every kind under names that end in \<open>.cu\<close>: a regular
  file, a directory, a link to a directory, a link to a regular file and a dangling link.
\<close>

definition linked_files :: filesystem where
  "linked_files =
     \<lparr>root =
        Dir [(''proj'',
               Dir [(''a.cu'', File []),
                    (''dir.cu'', Dir [(''c.cu'', File [])]),
                    (''link.cu'', Symlink (Dir [(''z.cu'', File [])])),
                    (''alias.cu'', Symlink (File [])),
                    (''gone.cu'', Dangling)])],
      cwd = [''proj'']\<rparr>"

text \<open>
  A source tree: two kernels below \<open>csrc/qattn\<close>, one of them in
  \<open>instantiations_sm80\<close> beside a hidden file, and one kernel below \<open>csrc/fused\<close>.
\<close>

definition csrc_dir :: node where
  "csrc_dir =
     Dir [(''qattn'',
            Dir [(''pybind.cpp'', File []), (''attn.cu'', File []),
                 (''instantiations_sm80'', Dir [(''k80.cu'', File []), (''.k.cu'', File [])])]),
          (''fused'', Dir [(''fused.cu'', File [])])]"

text \<open>
  A POSIX host with the toolkit under \<open>/usr/local/cuda\<close>, the working directory
  \<open>/work\<close> holding the source tree and, when \<open>readme\<close> is given, \<open>README.md\<close>; the
  compiler prints \<open>banner\<close>.
\<close>

definition demo_files :: "string option \<Rightarrow> filesystem" where
  "demo_files readme =
     \<lparr>root =
        Dir [(''usr'', Dir [(''local'', Dir [(''cuda'', Dir [(''bin'', Dir [(''nvcc'', File [])])])])]),
             (''work'',
               Dir ((''csrc'', csrc_dir) #
                    (case readme of None \<Rightarrow> [] | Some t \<Rightarrow> [(''README.md'', File t)])))],
      cwd = [''work'']\<rparr>"

definition demo_host :: "string \<Rightarrow> string option \<Rightarrow> host" where
  "demo_host banner readme =
     \<lparr>CUDA_HOME = Some ''/usr/local/cuda'',
      environ = [''TORCH_CUDA_ARCH_LIST'' \<mapsto> ''8.0;8.6;9.9''],
      platform = ''linux'',
      files = demo_files readme,
      check_output =
        (\<lambda>cmd. if cmd = [''/usr/local/cuda/bin/nvcc'', ''--version''] then Inr banner
               else Inl (SubprocessError ''command not found''))\<rparr>"

section \<open>Architecture flags: what the loop computes\<close>

lemma replace_drop: "replace c [] s = filter (\<lambda>x. x \<noteq> c) s"
  by (induction s) (simp_all add: replace_def)

lemma empty_not_supported: "[] \<notin> SUPPORTED_ARCHS"
  by (simp add: SUPPORTED_ARCHS_def)

lemma arch_loop_result:
  "r < length (heap st) \<Longrightarrow>
   arch_loop r toks st =
     st\<lparr>heap := (heap st)[r := heap st ! r @ flags_of toks],
        stdout := stdout st @ warnings_of toks\<rparr>"
proof (induction toks arbitrary: st)
  case Nil
  then show ?case by (simp add: flags_of_def warnings_of_def)
next
  case (Cons a toks)
  show ?case
  proof (cases "a = []")
    case True
    with Cons show ?thesis
      by (simp add: flags_of_def warnings_of_def empty_not_supported)
  next
    case False
    show ?thesis
    proof (cases "a \<in> SUPPORTED_ARCHS")
      case True
      have "r < length (heap (list_extend r (flag_pair a) st))"
        using Cons.prems by (simp add: list_extend_def)
      from Cons.IH [OF this] True False Cons.prems show ?thesis
        by (simp add: flags_of_def warnings_of_def list_extend_def flag_pair_def replace_drop Let_def)
    next
      case unsupported: False
      have "r < length (heap (print (warning_line a) st))"
        using Cons.prems by (simp add: print_def)
      from Cons.IH [OF this] unsupported False Cons.prems show ?thesis
        by (simp add: flags_of_def warnings_of_def print_def warning_line_def)
    qed
  qed
qed

lemma get_arch_flags_result:
  "get_arch_flags env st =
     (length (heap st),
      st\<lparr>heap := heap st @
             [flags_of (split_on CHR '';''
                (replace CHR '' '' '';'' (environ_get env ''TORCH_CUDA_ARCH_LIST'' [])))],
         stdout := stdout st @
             warnings_of (split_on CHR '';''
                (replace CHR '' '' '';'' (environ_get env ''TORCH_CUDA_ARCH_LIST'' [])))\<rparr>)"
  by (simp add: get_arch_flags_def alloc_def arch_loop_result)

lemma split_by_space_semicolon:
  "split_on CHR '';'' (replace CHR '' '' '';'' v) =
   split_by (\<lambda>c. c = CHR '' '' \<or> c = CHR '';'') v"
  by (induction v) (simp_all add: split_on_def replace_def)

lemma flags_of_nonempty: "flags_of (filter (\<lambda>t. t \<noteq> []) toks) = flags_of toks"
  by (induction toks) (auto simp: flags_of_def empty_not_supported)

lemma warnings_of_nonempty: "warnings_of (filter (\<lambda>t. t \<noteq> []) toks) = warnings_of toks"
  by (induction toks) (auto simp: warnings_of_def)

text \<open>
  Claim C1. For every value of the environment and every state, \<open>get_arch_flags\<close>
  returns a new list object and raises nothing. With the tokens that the code obtains
  from \<open>TORCH_CUDA_ARCH_LIST\<close>, the list holds exactly one pair
  \<open>-gencode\<close>, \<open>arch=compute_<code>,code=sm_<code>\<close> for each token that is a member of
  \<open>SUPPORTED_ARCHS\<close>, where the code is the token without its dot, in the order of the
  tokens and once per occurrence; each other non-empty token adds nothing to the list
  and prints one warning that names it.
\<close>

theorem get_arch_flags_resolves:
  "get_arch_flags env st =
     (length (heap st),
      st\<lparr>heap := heap st @
             [flags_of (split_on CHR '';''
                (replace CHR '' '' '';'' (environ_get env ''TORCH_CUDA_ARCH_LIST'' [])))],
         stdout := stdout st @
             warnings_of (split_on CHR '';''
                (replace CHR '' '' '';'' (environ_get env ''TORCH_CUDA_ARCH_LIST'' [])))\<rparr>)"
  by (rule get_arch_flags_result)

text \<open>
  The example of the claim: for \<open>8.0;8.6;9.9\<close> the flags are those of \<open>8.0\<close> and
  \<open>8.6\<close>, with one warning for \<open>9.9\<close>.
\<close>

theorem get_arch_flags_resolves_witness:
  "get_arch_flags [''TORCH_CUDA_ARCH_LIST'' \<mapsto> ''8.0;8.6;9.9''] \<lparr>heap = [], stdout = []\<rparr> =
     (0, \<lparr>heap = [[''-gencode'', ''arch=compute_80,code=sm_80'',
                    ''-gencode'', ''arch=compute_86,code=sm_86'']],
           stdout = [''Warning: Unsupported architecture 9.9 will be ignored'']\<rparr>)"
  using get_arch_flags_resolves [of "[''TORCH_CUDA_ARCH_LIST'' \<mapsto> ''8.0;8.6;9.9'']" "\<lparr>heap = [], stdout = []\<rparr>"]
  by (simp add: environ_get_def replace_def split_on_def flags_of_def warnings_of_def
      SUPPORTED_ARCHS_def flag_pair_def warning_line_def)

text \<open>
  Claim C5, as amended. The tokens that \<open>get_arch_flags\<close> checks for membership are the
  non-empty fields of \<open>TORCH_CUDA_ARCH_LIST\<close> when it is cut at every space character
  and every semicolon (no other whitespace character separates); a variable that is not
  set is read as the empty string, which gives an empty flag list and no warning.
\<close>

theorem get_arch_flags_space_tokens:
  "get_arch_flags env st =
     (length (heap st),
      st\<lparr>heap := heap st @ [flags_of (space_tokens (environ_get env ''TORCH_CUDA_ARCH_LIST'' []))],
         stdout := stdout st @
           warnings_of (space_tokens (environ_get env ''TORCH_CUDA_ARCH_LIST'' []))\<rparr>) \<and>
   (env ''TORCH_CUDA_ARCH_LIST'' = None \<longrightarrow>
      get_arch_flags env st = (length (heap st), st\<lparr>heap := heap st @ [[]]\<rparr>))"
proof -
  have eq1: "get_arch_flags env st =
     (length (heap st),
      st\<lparr>heap := heap st @ [flags_of (space_tokens (environ_get env ''TORCH_CUDA_ARCH_LIST'' []))],
         stdout := stdout st @
           warnings_of (space_tokens (environ_get env ''TORCH_CUDA_ARCH_LIST'' []))\<rparr>)"
    by (simp add: get_arch_flags_result split_by_space_semicolon space_tokens_def
        flags_of_nonempty warnings_of_nonempty)
  have "space_tokens [] = []"
    by (simp add: space_tokens_def)
  then have "env ''TORCH_CUDA_ARCH_LIST'' = None \<longrightarrow>
      get_arch_flags env st = (length (heap st), st\<lparr>heap := heap st @ [[]]\<rparr>)"
    by (simp add: eq1 environ_get_def flags_of_def warnings_of_def)
  with eq1 show ?thesis by blast
qed

theorem get_arch_flags_space_tokens_witness:
  "get_arch_flags [''TORCH_CUDA_ARCH_LIST'' \<mapsto> ''8.0 8.6;;9.0''] \<lparr>heap = [], stdout = []\<rparr> =
     (0, \<lparr>heap = [[''-gencode'', ''arch=compute_80,code=sm_80'',
                    ''-gencode'', ''arch=compute_86,code=sm_86'',
                    ''-gencode'', ''arch=compute_90,code=sm_90'']], stdout = []\<rparr>) \<and>
   Map.empty ''TORCH_CUDA_ARCH_LIST'' = (None :: string option) \<and>
   get_arch_flags Map.empty \<lparr>heap = [], stdout = []\<rparr> = (0, \<lparr>heap = [[]], stdout = []\<rparr>)"
  using get_arch_flags_space_tokens [of "[''TORCH_CUDA_ARCH_LIST'' \<mapsto> ''8.0 8.6;;9.0'']" "\<lparr>heap = [], stdout = []\<rparr>"]
    get_arch_flags_space_tokens [of Map.empty "\<lparr>heap = [], stdout = []\<rparr>"]
  by (simp add: environ_get_def space_tokens_def flags_of_def flag_pair_def warnings_of_def
      SUPPORTED_ARCHS_def)

text \<open>
  Claim C5 as it is stated fails for whitespace other than the space character: two
  supported identifiers separated by a tab are two tokens of the whitespace-separated
  list, but the code sees one unsupported token, emits no flag and warns.
\<close>

theorem whitespace_tokens_counterexample:
  "whitespace_tokens (''8.0'' @ [CHR 0x09] @ ''8.6'') = [''8.0'', ''8.6''] \<and>
   get_arch_flags [''TORCH_CUDA_ARCH_LIST'' \<mapsto> ''8.0'' @ [CHR 0x09] @ ''8.6'']
       \<lparr>heap = [], stdout = []\<rparr> =
     (0, \<lparr>heap = [[]],
           stdout = [''Warning: Unsupported architecture 8.0'' @ [CHR 0x09] @ ''8.6 will be ignored'']\<rparr>)"
  by (simp add: whitespace_tokens_def isspace_def get_arch_flags_def alloc_def environ_get_def
      replace_def split_on_def SUPPORTED_ARCHS_def print_def)

section \<open>Toolchain validation: outcomes\<close>

lemma split_by_head: "\<exists>ws. split_by P s = takeWhile (\<lambda>c. \<not> P c) s # ws"
proof (induction s)
  case Nil
  show ?case by simp
next
  case (Cons a s)
  then obtain ws where "split_by P s = takeWhile (\<lambda>c. \<not> P c) s # ws" by blast
  then show ?case by simp
qed

lemma split_on_head:
  "(case split_on sep s of [] \<Rightarrow> Inl IndexError | x # _ \<Rightarrow> Inr x) =
   (Inr (takeWhile (\<lambda>c. c \<noteq> sep) s) :: error + string)"
proof -
  obtain ws where "split_by (\<lambda>c. c = sep) s = takeWhile (\<lambda>c. \<not> c = sep) s # ws"
    using split_by_head by blast
  then show ?thesis by (simp add: split_on_def)
qed

lemma version_token_eq:
  "version_token out =
     (if length (split_ws out) < 2 then Inl IndexError else Inr (banner_token out))"
proof (cases "length (split_ws out) < 2")
  case True
  then show ?thesis by (simp add: version_token_def)
next
  case False
  then have "rev (split_ws out) ! 1 = split_ws out ! (length (split_ws out) - 2)"
    by (simp add: rev_nth numeral_2_eq_2)
  with False show ?thesis
    by (simp add: version_token_def banner_token_def split_on_head Let_def)
qed

lemma validate_after_query:
  assumes "CUDA_HOME w = Some home"
    and "exists (files w) (nvcc_under home)"
    and "check_output w [str (nvcc_under home), ''--version''] = Inr out"
  shows "validate_cuda_installation pk m w =
     (case version_token out of
        Inl e \<Rightarrow> Inl e
      | Inr tok \<Rightarrow>
          (case parse pk tok of
             None \<Rightarrow> Inl (InvalidVersion tok)
           | Some v \<Rightarrow>
               if v < m
               then Inl (RuntimeError
                      (''Requires CUDA '' @ str_version pk m @ ''+, found '' @ str_version pk v))
               else Inr ()))"
  using assms by (simp add: validate_cuda_installation_def nvcc_under_def)


lemma demo_nvcc_exists: "exists (demo_files r) (nvcc_under ''/usr/local/cuda'')"
  by (simp add: exists_def resolve_def demo_files_def nvcc_under_def Path_def joinpath_def
      split_on_def startswith_def)

lemma demo_nvcc_str: "str (nvcc_under ''/usr/local/cuda'') = ''/usr/local/cuda/bin/nvcc''"
  by (simp add: nvcc_under_def Path_def joinpath_def split_on_def startswith_def str_def)

lemma release_banner_token: "version_token (release_banner ''12.0'') = Inr ''12.0''"
  by (simp add: version_token_def release_banner_def split_ws_def isspace_def split_on_def)

lemma release_banner_words: "2 \<le> length (split_ws (release_banner ''12.0''))"
  by (simp add: release_banner_def split_ws_def isspace_def)

lemma parse_release_12_0: "parse_release ''12.0'' = Some (Release [12, 0])"
  by (simp add: parse_release_def split_on_def isdigit_def nat_of_digits_def)

text \<open>
  Claim C4. The version string that validation parses is the second-to-last
  whitespace-separated field of the output of the version query, cut at its first
  comma; an output with fewer than two fields has no such field and raises
  \<open>IndexError\<close>. When the root is known, the compiler exists and the query succeeds with
  at least two fields, the outcome of validation is decided by parsing that token and
  comparing the result with the minimum.
\<close>

theorem version_token_second_to_last:
  "version_token out =
     (if length (split_ws out) < 2 then Inl IndexError else Inr (banner_token out)) \<and>
   (CUDA_HOME w = Some home \<and> exists (files w) (nvcc_under home) \<and>
    check_output w [str (nvcc_under home), ''--version''] = Inr out \<and>
    2 \<le> length (split_ws out) \<longrightarrow>
    validate_cuda_installation pk m w =
      (case parse pk (banner_token out) of
         None \<Rightarrow> Inl (InvalidVersion (banner_token out))
       | Some v \<Rightarrow>
           if v < m
           then Inl (RuntimeError
                  (''Requires CUDA '' @ str_version pk m @ ''+, found '' @ str_version pk v))
           else Inr ()))"
  by (auto simp: version_token_eq validate_after_query)

theorem version_token_second_to_last_witness:
  "version_token (release_banner ''12.0'') = Inr ''12.0'' \<and>
   banner_token (release_banner ''12.0'') = ''12.0'' \<and>
   CUDA_HOME (demo_host (release_banner ''12.0'') None) = Some ''/usr/local/cuda'' \<and>
   exists (files (demo_host (release_banner ''12.0'') None)) (nvcc_under ''/usr/local/cuda'') \<and>
   check_output (demo_host (release_banner ''12.0'') None)
     [str (nvcc_under ''/usr/local/cuda''), ''--version''] = Inr (release_banner ''12.0'') \<and>
   2 \<le> length (split_ws (release_banner ''12.0'')) \<and>
   validate_cuda_installation release_packaging (Release [12, 0])
     (demo_host (release_banner ''12.0'') None) = Inr ()"
proof -
  let ?w = "demo_host (release_banner ''12.0'') None"
  have tok: "banner_token (release_banner ''12.0'') = ''12.0''"
    using release_banner_token release_banner_words by (simp add: version_token_eq)
  have h1: "CUDA_HOME ?w = Some ''/usr/local/cuda''"
    by (simp add: demo_host_def)
  have h2: "exists (files ?w) (nvcc_under ''/usr/local/cuda'')"
    by (simp add: demo_host_def demo_nvcc_exists)
  have h3: "check_output ?w [str (nvcc_under ''/usr/local/cuda''), ''--version'']
      = Inr (release_banner ''12.0'')"
    by (simp add: demo_host_def demo_nvcc_str)
  have "validate_cuda_installation release_packaging (Release [12, 0]) ?w = Inr ()"
    using version_token_second_to_last
      [of "release_banner ''12.0''" ?w "''/usr/local/cuda''" release_packaging "Release [12, 0]"]
      h1 h2 h3 release_banner_words
    by (simp add: tok release_packaging_def parse_release_12_0 less_release_def)
  with tok h1 h2 h3 release_banner_words release_banner_token show ?thesis by simp
qed








section \<open>Source discovery: what is found\<close>

lemma collect_loop_result:
  "r < length (heap st) \<Longrightarrow>
   collect_loop fs r ds st =
     st\<lparr>heap := (heap st)[r := heap st ! r @ concat (map (found fs) ds)]\<rparr>"
proof (induction ds arbitrary: st)
  case Nil
  then show ?case by simp
next
  case (Cons d ds)
  have "r < length (heap (list_extend r (found fs d) st))"
    using Cons.prems by (simp add: list_extend_def)
  from Cons.IH [OF this] Cons.prems show ?case
    by (simp add: list_extend_def)
qed

lemma collect_sources_result:
  "collect_sources fs ds st =
     (length (heap st), st\<lparr>heap := heap st @ [concat (map (found fs) ds)]\<rparr>)"
  by (simp add: collect_sources_def alloc_def collect_loop_result)

lemma below_nonempty: "below es cs n \<Longrightarrow> cs \<noteq> []"
  by (induction rule: below.induct) simp_all

lemma rglob_from_sound:
  "(q, n) \<in> set (rglob_from m p nd) \<Longrightarrow>
   \<exists>es cs. nd = Dir es \<and> below es cs n \<and> m (last cs) \<and> q = foldl joinpath p cs"
proof (induction m p nd arbitrary: q n rule: rglob_from.induct)
  case (1 m p es)
  from "1.prems" consider
      (here) c where "(c, n) \<in> set es" "m c" "q = joinpath p c"
    | (sub) c k where "(c, k) \<in> set es" "(q, n) \<in> set (rglob_from m (joinpath p c) k)"
    by auto
  then show ?case
  proof cases
    case here
    then have "below es [c] n \<and> m (last [c]) \<and> q = foldl joinpath p [c]"
      by (simp add: below.entry)
    then show ?thesis by blast
  next
    case sub
    from "1.IH" [OF sub(1) refl sub(2)] obtain es' cs
      where k: "k = Dir es'" and b: "below es' cs n" and mc: "m (last cs)"
        and q: "q = foldl joinpath (joinpath p c) cs"
      by blast
    from sub(1) k b have "below es (c # cs) n"
      by (auto intro: below.deeper)
    moreover from b have "cs \<noteq> []" by (rule below_nonempty)
    ultimately have "below es (c # cs) n \<and> m (last (c # cs)) \<and> q = foldl joinpath p (c # cs)"
      using mc q by simp
    then show ?thesis by blast
  qed
qed simp_all

lemma rglob_from_here:
  "(c, n) \<in> set es \<Longrightarrow> m c \<Longrightarrow> (joinpath p c, n) \<in> set (rglob_from m p (Dir es))"
proof -
  assume a: "(c, n) \<in> set es" "m c"
  then have "(joinpath p c, n) \<in> set [(joinpath p c, n). (c, n) \<leftarrow> es, m c]"
    by (induction es) auto
  then show ?thesis by simp
qed

lemma rglob_from_sub:
  "(c, k) \<in> set es \<Longrightarrow> x \<in> set (rglob_from m (joinpath p c) k) \<Longrightarrow>
   x \<in> set (rglob_from m p (Dir es))"
proof -
  assume a: "(c, k) \<in> set es" "x \<in> set (rglob_from m (joinpath p c) k)"
  then have "x \<in> set (concat (map (\<lambda>(c, n). rglob_from m (joinpath p c) n) es))"
    by (induction es) auto
  then show ?thesis by simp
qed

lemma rglob_from_complete:
  "below es cs n \<Longrightarrow> m (last cs) \<Longrightarrow> (foldl joinpath p cs, n) \<in> set (rglob_from m p (Dir es))"
proof (induction arbitrary: p rule: below.induct)
  case (entry c n es)
  then have "(joinpath p c, n) \<in> set (rglob_from m p (Dir es))"
    by (simp add: rglob_from_here del: rglob_from.simps)
  then show ?case by (simp del: rglob_from.simps)
next
  case (deeper c es' es cs n)
  from deeper.hyps(2) have "cs \<noteq> []" by (rule below_nonempty)
  with deeper.prems have "m (last cs)" by simp
  from deeper.IH [OF this]
  have "(foldl joinpath (joinpath p c) cs, n) \<in> set (rglob_from m (joinpath p c) (Dir es'))" .
  with deeper.hyps(1)
  have "(foldl joinpath (joinpath p c) cs, n) \<in> set (rglob_from m p (Dir es))"
    by (rule rglob_from_sub)
  then show ?case by (simp del: rglob_from.simps)
qed

lemma rglob_from_iff:
  "((q, n) \<in> set (rglob_from m p (Dir es))) =
   (\<exists>cs. below es cs n \<and> m (last cs) \<and> q = foldl joinpath p cs)"
proof
  assume "(q, n) \<in> set (rglob_from m p (Dir es))"
  from rglob_from_sound [OF this] obtain es' cs
    where "Dir es = Dir es'" "below es' cs n" "m (last cs)" "q = foldl joinpath p cs"
    by blast
  then show "\<exists>cs. below es cs n \<and> m (last cs) \<and> q = foldl joinpath p cs"
    by auto
next
  assume "\<exists>cs. below es cs n \<and> m (last cs) \<and> q = foldl joinpath p cs"
  then obtain cs where "below es cs n" "m (last cs)" "q = foldl joinpath p cs"
    by blast
  then show "(q, n) \<in> set (rglob_from m p (Dir es))"
    using rglob_from_complete by blast
qed

lemma parts_foldl_joinpath: "parts (foldl joinpath p cs) = parts p @ cs"
  by (induction cs arbitrary: p) (simp_all add: joinpath_def)

lemma anchor_foldl_joinpath: "anchor (foldl joinpath p cs) = anchor p"
  by (induction cs arbitrary: p) (simp_all add: joinpath_def)

lemma path_name_foldl_joinpath: "cs \<noteq> [] \<Longrightarrow> path_name (foldl joinpath p cs) = last cs"
  by (simp add: path_name_def parts_foldl_joinpath)

lemma found_set:
  "(s \<in> set (found fs d)) =
   (\<exists>q n. (q, n) \<in> set (rglob_cu fs (Path d)) \<and> is_file n \<and>
      \<not> startswith (path_name q) ''.'' \<and> s = str q)"
  by (auto simp: found_def Let_def)

lemma rglob_cu_iff:
  "((q, n) \<in> set (rglob_cu fs b)) =
   (\<exists>r es cs. resolve fs b = Some r \<and> follow r = Dir es \<and> below es cs n \<and>
      endswith (last cs) ''.cu'' \<and> q = foldl joinpath b cs)"
proof (cases "resolve fs b")
  case None
  then show ?thesis by (simp add: rglob_cu_def)
next
  case (Some r)
  show ?thesis
  proof (cases "follow r")
    case (Dir es)
    with Some show ?thesis
      by (simp add: rglob_cu_def rglob_from_iff del: rglob_from.simps)
  qed (use Some in \<open>simp_all add: rglob_cu_def\<close>)
qed

lemma found_iff:
  "(s \<in> set (found fs d)) =
   (\<exists>r es cs n.
      resolve fs (Path d) = Some r \<and> follow r = Dir es \<and> below es cs n \<and>
      endswith (last cs) ''.cu'' \<and> is_file n \<and> \<not> startswith (last cs) ''.'' \<and>
      s = str (foldl joinpath (Path d) cs))"
proof
  assume "s \<in> set (found fs d)"
  then obtain q n where qn: "(q, n) \<in> set (rglob_cu fs (Path d))" "is_file n"
      "\<not> startswith (path_name q) ''.''" "s = str q"
    unfolding found_set by blast
  from qn(1) obtain r es cs where r: "resolve fs (Path d) = Some r" "follow r = Dir es"
      "below es cs n" "endswith (last cs) ''.cu''" "q = foldl joinpath (Path d) cs"
    unfolding rglob_cu_iff by blast
  from r(3) have "cs \<noteq> []" by (rule below_nonempty)
  then have "path_name q = last cs"
    using r(5) by (simp add: path_name_foldl_joinpath)
  with qn r show "\<exists>r es cs n.
      resolve fs (Path d) = Some r \<and> follow r = Dir es \<and> below es cs n \<and>
      endswith (last cs) ''.cu'' \<and> is_file n \<and> \<not> startswith (last cs) ''.'' \<and>
      s = str (foldl joinpath (Path d) cs)"
    by auto
next
  assume "\<exists>r es cs n.
      resolve fs (Path d) = Some r \<and> follow r = Dir es \<and> below es cs n \<and>
      endswith (last cs) ''.cu'' \<and> is_file n \<and> \<not> startswith (last cs) ''.'' \<and>
      s = str (foldl joinpath (Path d) cs)"
  then obtain r es cs n where r: "resolve fs (Path d) = Some r" "follow r = Dir es"
      "below es cs n" "endswith (last cs) ''.cu''" "is_file n"
      "\<not> startswith (last cs) ''.''" "s = str (foldl joinpath (Path d) cs)"
    by blast
  from r(3) have "cs \<noteq> []" by (rule below_nonempty)
  then have nm: "path_name (foldl joinpath (Path d) cs) = last cs"
    by (simp add: path_name_foldl_joinpath)
  from r have "(foldl joinpath (Path d) cs, n) \<in> set (rglob_cu fs (Path d))"
    unfolding rglob_cu_iff by blast
  with r nm have "(foldl joinpath (Path d) cs, n) \<in> set (rglob_cu fs (Path d)) \<and> is_file n \<and>
      \<not> startswith (path_name (foldl joinpath (Path d) cs)) ''.'' \<and>
      s = str (foldl joinpath (Path d) cs)"
    by simp
  then show "s \<in> set (found fs d)"
    unfolding found_set by blast
qed

lemma rglob_cu_missing: "\<not> exists fs b \<Longrightarrow> rglob_cu fs b = []"
proof (cases "resolve fs b")
  case None
  then show ?thesis by (simp add: rglob_cu_def)
next
  case (Some r)
  assume "\<not> exists fs b"
  with Some have "follow r = Dangling" by (simp add: exists_def)
  with Some show ?thesis by (simp add: rglob_cu_def)
qed

lemma found_missing: "\<not> exists fs (Path d) \<Longrightarrow> found fs d = []"
  by (simp add: found_def rglob_cu_missing)

lemma is_file_regular: "is_file n = regular n"
  by (induction n rule: regular.induct) (simp_all add: is_file_def)

lemma follow_entries: "(follow r = Dir es) = (entries r = Some es)"
  by (induction r rule: entries.induct) auto

lemma found_regular_iff:
  "(s \<in> set (found fs d)) =
   (\<exists>r es cs n.
      resolve fs (Path d) = Some r \<and> entries r = Some es \<and> below es cs n \<and>
      endswith (last cs) ''.cu'' \<and> regular n \<and> \<not> startswith (last cs) ''.'' \<and>
      s = str (foldl joinpath (Path d) cs))"
  by (simp add: found_iff is_file_regular follow_entries)

text \<open>
  Claim C3, as amended. \<open>collect_sources\<close> returns a new list that is the
  concatenation, root by root, of what is found under each root, and raises nothing.
  The root may be a directory or a link to one. What is found under it is exactly the
  paths, rendered below the root, of the entries that are reached from the root
  directory by entering real sub-directories only (a symbolic link to a directory is not
  entered), whose name ends in \<open>.cu\<close> and does not start with a dot, and which are
  regular files, directly or through a link; so directories, links to directories and
  dangling links are left out. A root that does not exist contributes nothing.
\<close>

theorem collect_sources_discovers:
  "collect_sources fs ds st =
     (length (heap st), st\<lparr>heap := heap st @ [concat (map (found fs) ds)]\<rparr>) \<and>
   ((s \<in> set (found fs d)) =
    (\<exists>r es cs n.
       resolve fs (Path d) = Some r \<and> entries r = Some es \<and> below es cs n \<and>
       endswith (last cs) ''.cu'' \<and> regular n \<and> \<not> startswith (last cs) ''.'' \<and>
       s = str (foldl joinpath (Path d) cs))) \<and>
   (\<not> exists fs (Path d) \<longrightarrow> found fs d = [])"
proof (intro conjI impI)
  show "collect_sources fs ds st =
     (length (heap st), st\<lparr>heap := heap st @ [concat (map (found fs) ds)]\<rparr>)"
    by (rule collect_sources_result)
  show "(s \<in> set (found fs d)) =
    (\<exists>r es cs n.
       resolve fs (Path d) = Some r \<and> entries r = Some es \<and> below es cs n \<and>
       endswith (last cs) ''.cu'' \<and> regular n \<and> \<not> startswith (last cs) ''.'' \<and>
       s = str (foldl joinpath (Path d) cs))"
    by (rule found_regular_iff)
  show "found fs d = []" if "\<not> exists fs (Path d)"
    using that by (rule found_missing)
qed

lemma example_found: "found example_files ''.'' = [''a.cu'', ''sub/b.cu'']"
  by (simp add: found_def example_files_def example_dir_def rglob_cu_def resolve_def Path_def
      split_on_def startswith_def endswith_def joinpath_def str_def path_name_def is_file_def)

lemma example_missing: "\<not> exists example_files (Path ''missing'')"
  by (simp add: exists_def example_files_def example_dir_def resolve_def Path_def split_on_def
      startswith_def)

lemma linked_found: "found linked_files ''.'' = [''a.cu'', ''alias.cu'', ''dir.cu/c.cu'']"
  by (simp add: found_def linked_files_def rglob_cu_def resolve_def Path_def
      split_on_def startswith_def endswith_def joinpath_def str_def path_name_def is_file_def)

lemma linked_found_link: "found linked_files ''link.cu'' = [''link.cu/z.cu'']"
  by (simp add: found_def linked_files_def rglob_cu_def resolve_def Path_def
      split_on_def startswith_def endswith_def joinpath_def str_def path_name_def is_file_def)

lemma linked_below_alias:
  "below [(''a.cu'', File []), (''dir.cu'', Dir [(''c.cu'', File [])]),
          (''link.cu'', Symlink (Dir [(''z.cu'', File [])])),
          (''alias.cu'', Symlink (File [])), (''gone.cu'', Dangling)]
     [''alias.cu''] (Symlink (File []))"
  by (rule below.entry) simp

lemma linked_resolve_root:
  "resolve linked_files (Path ''.'') =
     Some (Dir [(''a.cu'', File []), (''dir.cu'', Dir [(''c.cu'', File [])]),
                (''link.cu'', Symlink (Dir [(''z.cu'', File [])])),
                (''alias.cu'', Symlink (File [])), (''gone.cu'', Dangling)])"
  by (simp add: linked_files_def resolve_def Path_def split_on_def startswith_def)

text \<open>
  The directory of the specification's example, with a root that does not exist beside
  it. Then a directory where names that end in \<open>.cu\<close> belong to entries of every
  kind: the regular file and the link to a regular file are returned, the directory, the
  link to a directory and the dangling link are not; the directory is entered, the link
  to a directory is entered only when it is the root.
\<close>

theorem collect_sources_discovers_witness:
  "collect_sources example_files [''.'', ''missing''] \<lparr>heap = [], stdout = []\<rparr> =
     (0, \<lparr>heap = [[''a.cu'', ''sub/b.cu'']], stdout = []\<rparr>) \<and>
   set (found example_files ''.'') = {''a.cu'', ''sub/b.cu''} \<and>
   \<not> exists example_files (Path ''missing'') \<and>
   found example_files ''missing'' = [] \<and>
   collect_sources linked_files [''.'', ''link.cu''] \<lparr>heap = [], stdout = []\<rparr> =
     (0, \<lparr>heap = [[''a.cu'', ''alias.cu'', ''dir.cu/c.cu'', ''link.cu/z.cu'']], stdout = []\<rparr>) \<and>
   regular (Symlink (File [])) \<and> ''alias.cu'' \<in> set (found linked_files ''.'') \<and>
   \<not> regular (Dir [(''c.cu'', File [])]) \<and> ''dir.cu'' \<notin> set (found linked_files ''.'') \<and>
   \<not> regular (Symlink (Dir [(''z.cu'', File [])])) \<and>
   ''link.cu'' \<notin> set (found linked_files ''.'') \<and>
   \<not> regular Dangling \<and> ''gone.cu'' \<notin> set (found linked_files ''.'')"
proof -
  have m: "found example_files ''missing'' = []"
    using collect_sources_discovers
      [where fs = example_files and ds = "[]" and st = "\<lparr>heap = [], stdout = []\<rparr>"
         and s = "[]" and d = "''missing''"]
      example_missing
    by simp
  have c: "collect_sources example_files [''.'', ''missing''] \<lparr>heap = [], stdout = []\<rparr> =
     (0, \<lparr>heap = [[''a.cu'', ''sub/b.cu'']], stdout = []\<rparr>)"
    using collect_sources_discovers
      [where fs = example_files and ds = "[''.'', ''missing'']"
         and st = "\<lparr>heap = [], stdout = []\<rparr>" and s = "[]" and d = "''missing''"]
    by (simp add: example_found m)
  have l: "collect_sources linked_files [''.'', ''link.cu''] \<lparr>heap = [], stdout = []\<rparr> =
     (0, \<lparr>heap = [[''a.cu'', ''alias.cu'', ''dir.cu/c.cu'', ''link.cu/z.cu'']], stdout = []\<rparr>)"
    using collect_sources_discovers
      [where fs = linked_files and ds = "[''.'', ''link.cu'']"
         and st = "\<lparr>heap = [], stdout = []\<rparr>" and s = "[]" and d = "''missing''"]
    by (simp add: linked_found linked_found_link)
  let ?es = "[(''a.cu'', File []), (''dir.cu'', Dir [(''c.cu'', File [])]),
          (''link.cu'', Symlink (Dir [(''z.cu'', File [])])),
          (''alias.cu'', Symlink (File [])), (''gone.cu'', Dangling)]"
  have "resolve linked_files (Path ''.'') = Some (Dir ?es) \<and> entries (Dir ?es) = Some ?es \<and>
       below ?es [''alias.cu''] (Symlink (File [])) \<and>
       endswith (last [''alias.cu'']) ''.cu'' \<and> regular (Symlink (File [])) \<and>
       \<not> startswith (last [''alias.cu'']) ''.'' \<and>
       ''alias.cu'' = str (foldl joinpath (Path ''.'') [''alias.cu''])"
    using linked_resolve_root linked_below_alias
    by (simp add: endswith_def startswith_def str_def joinpath_def Path_def split_on_def)
  then have "\<exists>r es cs n.
       resolve linked_files (Path ''.'') = Some r \<and> entries r = Some es \<and> below es cs n \<and>
       endswith (last cs) ''.cu'' \<and> regular n \<and> \<not> startswith (last cs) ''.'' \<and>
       ''alias.cu'' = str (foldl joinpath (Path ''.'') cs)"
    by blast
  then have a: "''alias.cu'' \<in> set (found linked_files ''.'')"
    using collect_sources_discovers
      [where fs = linked_files and ds = "[]" and st = "\<lparr>heap = [], stdout = []\<rparr>"
         and s = "''alias.cu''" and d = "''.''"]
    by blast
  from m c l a example_missing show ?thesis
    by (simp add: example_found linked_found)
qed

text \<open>
  Claim C3 as it is stated fails for a file behind a symbolic link to a directory. In
  the second example \<open>link.cu/z.cu\<close> is a regular file under the root, its name ends
  in \<open>.cu\<close> and does not start with a dot, but the scan does not enter the link
  \<open>link.cu\<close>, and the path is not returned.
\<close>

theorem symlinked_directory_counterexample:
  "resolve linked_files (Path ''./link.cu/z.cu'') = Some (File []) \<and>
   is_file (File []) \<and> endswith ''z.cu'' ''.cu'' \<and> \<not> startswith ''z.cu'' ''.'' \<and>
   collect_sources linked_files [''.''] \<lparr>heap = [], stdout = []\<rparr> =
     (0, \<lparr>heap = [[''a.cu'', ''alias.cu'', ''dir.cu/c.cu'']], stdout = []\<rparr>) \<and>
   ''link.cu/z.cu'' \<notin> set (found linked_files ''.'')"
proof -
  have "resolve linked_files (Path ''./link.cu/z.cu'') = Some (File [])"
    by (simp add: linked_files_def resolve_def Path_def split_on_def startswith_def)
  then show ?thesis
    by (simp add: collect_sources_result linked_found startswith_def endswith_def is_file_def)
qed

section \<open>Extension targets and the platform override\<close>

lemma extensions_result:
  "extensions w st0 =
     ([\<lparr>name = PROJECT_NAME @ ''._qattn'', sources = length (heap st0) + 1,
         cxx = length (heap st0) + 2, nvcc = length (heap st0) + 4\<rparr>,
       \<lparr>name = PROJECT_NAME @ ''._fused'', sources = length (heap st0) + 5,
         cxx = length (heap st0) + 6, nvcc = length (heap st0) + 8\<rparr>],
      st0\<lparr>heap := heap st0 @
            [qattn_found (files w),
             ''csrc/qattn/pybind.cpp'' # qattn_found (files w),
             [''-O3'', ''-fopenmp'', ''-std=c++17''],
             flags_of (arch_tokens (environ w)),
             [''-O3'', ''-std=c++17'', ''--use_fast_math'', ''--threads=8'']
               @ flags_of (arch_tokens (environ w)),
             found (files w) ''csrc/fused'',
             [''-O3'', ''-fopenmp'', ''-std=c++17''],
             flags_of (arch_tokens (environ w)),
             [''-O3'', ''-std=c++17'', ''--use_fast_math'']
               @ flags_of (arch_tokens (environ w))],
          stdout := stdout st0 @ warnings_of (arch_tokens (environ w))
                      @ warnings_of (arch_tokens (environ w))\<rparr>)"
  by (simp add: extensions_def collect_sources_result get_arch_flags_result alloc_def
      qattn_found_def arch_tokens_def nth_append)

lemma join_head: "\<exists>t. join sep (x # xs) = x @ t"
  by (cases xs) simp_all

lemma join_two_heads: "\<exists>t. join ''/'' (a # b # xs) = a @ ''/'' @ b @ t"
  using join_head [of "''/''" b xs] by auto

lemma found_under:
  assumes "s \<in> set (found fs d)"
    and "anchor (Path d) = []"
    and "parts (Path d) = a # b # rest"
  shows "\<exists>t. s = a @ ''/'' @ b @ t"
proof -
  from assms(1) obtain cs where s: "s = str (foldl joinpath (Path d) cs)"
    unfolding found_iff by blast
  have "str (foldl joinpath (Path d) cs) = join ''/'' (a # b # (rest @ cs))"
    using assms(2,3) by (simp add: str_def parts_foldl_joinpath anchor_foldl_joinpath)
  with s show ?thesis
    using join_two_heads [of a b "rest @ cs"] by simp
qed

lemma Path_qattn: "Path ''csrc/qattn'' = \<lparr>anchor = [], parts = [''csrc'', ''qattn'']\<rparr>"
  by (simp add: Path_def split_on_def startswith_def)

lemma Path_sm80:
  "Path ''csrc/qattn/instantiations_sm80'' =
     \<lparr>anchor = [], parts = [''csrc'', ''qattn'', ''instantiations_sm80'']\<rparr>"
  by (simp add: Path_def split_on_def startswith_def)

lemma Path_sm89:
  "Path ''csrc/qattn/instantiations_sm89'' =
     \<lparr>anchor = [], parts = [''csrc'', ''qattn'', ''instantiations_sm89'']\<rparr>"
  by (simp add: Path_def split_on_def startswith_def)

lemma Path_fused: "Path ''csrc/fused'' = \<lparr>anchor = [], parts = [''csrc'', ''fused'']\<rparr>"
  by (simp add: Path_def split_on_def startswith_def)

lemma qattn_found_under:
  assumes "s \<in> set (qattn_found fs)"
  shows "\<exists>t. s = ''csrc/qattn'' @ t"
proof -
  from assms consider
      "s \<in> set (found fs ''csrc/qattn'')"
    | "s \<in> set (found fs ''csrc/qattn/instantiations_sm80'')"
    | "s \<in> set (found fs ''csrc/qattn/instantiations_sm89'')"
    by (auto simp: qattn_found_def)
  then show ?thesis
  proof cases
    case 1
    from found_under [OF this, of "''csrc''" "''qattn''" "[]"] show ?thesis
      by (simp add: Path_qattn)
  next
    case 2
    from found_under [OF this, of "''csrc''" "''qattn''" "[''instantiations_sm80'']"]
    show ?thesis by (simp add: Path_sm80)
  next
    case 3
    from found_under [OF this, of "''csrc''" "''qattn''" "[''instantiations_sm89'']"]
    show ?thesis by (simp add: Path_sm89)
  qed
qed

lemma fused_found_under:
  assumes "s \<in> set (found fs ''csrc/fused'')"
  shows "\<exists>t. s = ''csrc/fused'' @ t"
  using found_under [OF assms, of "''csrc''" "''fused''" "[]"] by (simp add: Path_fused)

lemma qattn_fused_disjoint:
  "set (''csrc/qattn/pybind.cpp'' # qattn_found fs) \<inter> set (found fs ''csrc/fused'') = {}"
proof -
  have "s \<notin> set (found fs ''csrc/fused'')"
    if "s \<in> set (''csrc/qattn/pybind.cpp'' # qattn_found fs)" for s
  proof
    assume "s \<in> set (found fs ''csrc/fused'')"
    then obtain t where t: "s = ''csrc/fused'' @ t"
      using fused_found_under by blast
    from that have "\<exists>u. s = ''csrc/qattn'' @ u"
    proof (cases "s = ''csrc/qattn/pybind.cpp''")
      case True
      then show ?thesis by simp
    next
      case False
      with that have "s \<in> set (qattn_found fs)" by simp
      then show ?thesis by (rule qattn_found_under)
    qed
    with t show False by auto
  qed
  then show ?thesis by blast
qed

text \<open>
  Claim C7. The list \<open>extensions\<close> has the two targets \<open>spas_sage_attn._qattn\<close> and
  \<open>spas_sage_attn._fused\<close>. The first lists the entry point followed by what is found
  under \<open>csrc/qattn\<close> and its two instantiation directories, the second what is found
  under \<open>csrc/fused\<close>, and no path is in both lists. The six list objects of the two
  targets (sources, \<open>cxx\<close> and \<open>nvcc\<close> arguments of each) are six different objects,
  none of which existed before; each call of \<open>get_arch_flags\<close> returns an object that
  did not exist before it. So extending the \<open>nvcc\<close> arguments of one target changes
  that list alone and leaves every list of the other target as it was.
\<close>

theorem extensions_independent:
  assumes "extensions w st0 = (exts, st1)"
  shows "\<exists>q f. exts = [q, f] \<and>
     name q = ''spas_sage_attn._qattn'' \<and> name f = ''spas_sage_attn._fused'' \<and>
     heap st1 ! sources q = ''csrc/qattn/pybind.cpp'' # qattn_found (files w) \<and>
     heap st1 ! sources f = found (files w) ''csrc/fused'' \<and>
     set (heap st1 ! sources q) \<inter> set (heap st1 ! sources f) = {} \<and>
     distinct [sources q, cxx q, nvcc q, sources f, cxx f, nvcc f] \<and>
     list_all (\<lambda>r. length (heap st0) \<le> r \<and> r < length (heap st1))
       [sources q, cxx q, nvcc q, sources f, cxx f, nvcc f] \<and>
     fst (get_arch_flags (environ w) st) = length (heap st) \<and>
     (\<forall>ys. heap (list_extend (nvcc q) ys st1) ! nvcc q = heap st1 ! nvcc q @ ys \<and>
           heap (list_extend (nvcc q) ys st1) ! cxx q = heap st1 ! cxx q \<and>
           heap (list_extend (nvcc q) ys st1) ! sources q = heap st1 ! sources q \<and>
           heap (list_extend (nvcc q) ys st1) ! nvcc f = heap st1 ! nvcc f \<and>
           heap (list_extend (nvcc q) ys st1) ! cxx f = heap st1 ! cxx f \<and>
           heap (list_extend (nvcc q) ys st1) ! sources f = heap st1 ! sources f) \<and>
     (\<forall>ys. heap (list_extend (nvcc f) ys st1) ! nvcc f = heap st1 ! nvcc f @ ys \<and>
           heap (list_extend (nvcc f) ys st1) ! cxx f = heap st1 ! cxx f \<and>
           heap (list_extend (nvcc f) ys st1) ! sources f = heap st1 ! sources f \<and>
           heap (list_extend (nvcc f) ys st1) ! nvcc q = heap st1 ! nvcc q \<and>
           heap (list_extend (nvcc f) ys st1) ! cxx q = heap st1 ! cxx q \<and>
           heap (list_extend (nvcc f) ys st1) ! sources q = heap st1 ! sources q)"
proof -
  from assms have exts:
    "exts =
       [\<lparr>name = PROJECT_NAME @ ''._qattn'', sources = length (heap st0) + 1,
          cxx = length (heap st0) + 2, nvcc = length (heap st0) + 4\<rparr>,
        \<lparr>name = PROJECT_NAME @ ''._fused'', sources = length (heap st0) + 5,
          cxx = length (heap st0) + 6, nvcc = length (heap st0) + 8\<rparr>]"
    by (simp add: extensions_result)
  from assms have hp:
    "heap st1 = heap st0 @
       [qattn_found (files w),
        ''csrc/qattn/pybind.cpp'' # qattn_found (files w),
        [''-O3'', ''-fopenmp'', ''-std=c++17''],
        flags_of (arch_tokens (environ w)),
        [''-O3'', ''-std=c++17'', ''--use_fast_math'', ''--threads=8'']
          @ flags_of (arch_tokens (environ w)),
        found (files w) ''csrc/fused'',
        [''-O3'', ''-fopenmp'', ''-std=c++17''],
        flags_of (arch_tokens (environ w)),
        [''-O3'', ''-std=c++17'', ''--use_fast_math'']
          @ flags_of (arch_tokens (environ w))]"
    by (auto simp: extensions_result)
  have fresh: "fst (get_arch_flags (environ w) st) = length (heap st)"
    by (simp add: get_arch_flags_result)
  have dj: "set (''csrc/qattn/pybind.cpp'' # qattn_found (files w)) \<inter>
      set (found (files w) ''csrc/fused'') = {}"
    by (rule qattn_fused_disjoint)
  show ?thesis
    unfolding exts
    using dj fresh
    by (simp add: hp nth_append list_extend_def PROJECT_NAME_def)
qed

lemma demo_found_qattn:
  "found (demo_files r) ''csrc/qattn'' =
     [''csrc/qattn/attn.cu'', ''csrc/qattn/instantiations_sm80/k80.cu'']"
  by (simp add: found_def demo_files_def csrc_dir_def rglob_cu_def resolve_def Path_qattn
      startswith_def endswith_def joinpath_def str_def path_name_def is_file_def)

lemma demo_found_sm80:
  "found (demo_files r) ''csrc/qattn/instantiations_sm80'' =
     [''csrc/qattn/instantiations_sm80/k80.cu'']"
  by (simp add: found_def demo_files_def csrc_dir_def rglob_cu_def resolve_def Path_sm80
      startswith_def endswith_def joinpath_def str_def path_name_def is_file_def)

lemma demo_found_sm89: "found (demo_files r) ''csrc/qattn/instantiations_sm89'' = []"
  by (simp add: found_def demo_files_def csrc_dir_def rglob_cu_def resolve_def Path_sm89)

lemma demo_found_fused: "found (demo_files r) ''csrc/fused'' = [''csrc/fused/fused.cu'']"
  by (simp add: found_def demo_files_def csrc_dir_def rglob_cu_def resolve_def Path_fused
      startswith_def endswith_def joinpath_def str_def path_name_def is_file_def)

lemma demo_qattn_found:
  "qattn_found (demo_files r) =
     [''csrc/qattn/attn.cu'', ''csrc/qattn/instantiations_sm80/k80.cu'',
      ''csrc/qattn/instantiations_sm80/k80.cu'']"
  by (simp add: qattn_found_def demo_found_qattn demo_found_sm80 demo_found_sm89)

lemma demo_flags:
  "flags_of (arch_tokens [''TORCH_CUDA_ARCH_LIST'' \<mapsto> ''8.0;8.6;9.9'']) =
     [''-gencode'', ''arch=compute_80,code=sm_80'', ''-gencode'', ''arch=compute_86,code=sm_86'']"
  by (simp add: arch_tokens_def environ_get_def replace_def split_on_def flags_of_def
      SUPPORTED_ARCHS_def flag_pair_def)

lemma demo_warnings:
  "warnings_of (arch_tokens [''TORCH_CUDA_ARCH_LIST'' \<mapsto> ''8.0;8.6;9.9'']) =
     [''Warning: Unsupported architecture 9.9 will be ignored'']"
  by (simp add: arch_tokens_def environ_get_def replace_def split_on_def warnings_of_def
      SUPPORTED_ARCHS_def warning_line_def)

lemma demo_host_files: "files (demo_host b r) = demo_files r"
  by (simp add: demo_host_def)

lemma demo_host_environ:
  "environ (demo_host b r) = [''TORCH_CUDA_ARCH_LIST'' \<mapsto> ''8.0;8.6;9.9'']"
  by (simp add: demo_host_def)

lemma demo_extensions:
  "extensions (demo_host b r) \<lparr>heap = [], stdout = []\<rparr> =
     ([\<lparr>name = ''spas_sage_attn._qattn'', sources = 1, cxx = 2, nvcc = 4\<rparr>,
       \<lparr>name = ''spas_sage_attn._fused'', sources = 5, cxx = 6, nvcc = 8\<rparr>],
      \<lparr>heap =
         [[''csrc/qattn/attn.cu'', ''csrc/qattn/instantiations_sm80/k80.cu'',
           ''csrc/qattn/instantiations_sm80/k80.cu''],
          [''csrc/qattn/pybind.cpp'', ''csrc/qattn/attn.cu'',
           ''csrc/qattn/instantiations_sm80/k80.cu'', ''csrc/qattn/instantiations_sm80/k80.cu''],
          [''-O3'', ''-fopenmp'', ''-std=c++17''],
          [''-gencode'', ''arch=compute_80,code=sm_80'',
           ''-gencode'', ''arch=compute_86,code=sm_86''],
          [''-O3'', ''-std=c++17'', ''--use_fast_math'', ''--threads=8'',
           ''-gencode'', ''arch=compute_80,code=sm_80'',
           ''-gencode'', ''arch=compute_86,code=sm_86''],
          [''csrc/fused/fused.cu''],
          [''-O3'', ''-fopenmp'', ''-std=c++17''],
          [''-gencode'', ''arch=compute_80,code=sm_80'',
           ''-gencode'', ''arch=compute_86,code=sm_86''],
          [''-O3'', ''-std=c++17'', ''--use_fast_math'',
           ''-gencode'', ''arch=compute_80,code=sm_80'',
           ''-gencode'', ''arch=compute_86,code=sm_86'']],
        stdout =
          [''Warning: Unsupported architecture 9.9 will be ignored'',
           ''Warning: Unsupported architecture 9.9 will be ignored'']\<rparr>)"
  by (simp add: extensions_result demo_host_files demo_host_environ demo_qattn_found
      demo_found_fused demo_flags demo_warnings PROJECT_NAME_def)

text \<open>
  On the example host the two targets are built from a fresh interpreter state: the two
  source lists have no path in common, and after \<open>--ptxas-options=-v\<close> is appended to the
  \<open>nvcc\<close> arguments of \<open>_qattn\<close> (list 4) the \<open>nvcc\<close> arguments of \<open>_fused\<close> (list 8)
  are what they were.
\<close>

theorem extensions_independent_witness:
  "fst (extensions (demo_host (release_banner ''12.0'') None) \<lparr>heap = [], stdout = []\<rparr>) =
     [\<lparr>name = ''spas_sage_attn._qattn'', sources = 1, cxx = 2, nvcc = 4\<rparr>,
      \<lparr>name = ''spas_sage_attn._fused'', sources = 5, cxx = 6, nvcc = 8\<rparr>] \<and>
   heap (snd (extensions (demo_host (release_banner ''12.0'') None) \<lparr>heap = [], stdout = []\<rparr>)) ! 1 =
     [''csrc/qattn/pybind.cpp'', ''csrc/qattn/attn.cu'',
      ''csrc/qattn/instantiations_sm80/k80.cu'', ''csrc/qattn/instantiations_sm80/k80.cu''] \<and>
   heap (snd (extensions (demo_host (release_banner ''12.0'') None) \<lparr>heap = [], stdout = []\<rparr>)) ! 5 =
     [''csrc/fused/fused.cu''] \<and>
   set [''csrc/qattn/pybind.cpp'', ''csrc/qattn/attn.cu'',
        ''csrc/qattn/instantiations_sm80/k80.cu'', ''csrc/qattn/instantiations_sm80/k80.cu''] \<inter>
     set [''csrc/fused/fused.cu''] = {} \<and>
   heap (list_extend 4 [''--ptxas-options=-v'']
          (snd (extensions (demo_host (release_banner ''12.0'') None)
                  \<lparr>heap = [], stdout = []\<rparr>))) ! 4 =
     [''-O3'', ''-std=c++17'', ''--use_fast_math'', ''--threads=8'',
      ''-gencode'', ''arch=compute_80,code=sm_80'',
      ''-gencode'', ''arch=compute_86,code=sm_86'', ''--ptxas-options=-v''] \<and>
   heap (list_extend 4 [''--ptxas-options=-v'']
          (snd (extensions (demo_host (release_banner ''12.0'') None)
                  \<lparr>heap = [], stdout = []\<rparr>))) ! 8 =
     [''-O3'', ''-std=c++17'', ''--use_fast_math'',
      ''-gencode'', ''arch=compute_80,code=sm_80'',
      ''-gencode'', ''arch=compute_86,code=sm_86'']"
  using extensions_independent
    [OF demo_extensions [of "release_banner ''12.0''" None], of "\<lparr>heap = [], stdout = []\<rparr>"]
  by (simp add: demo_extensions list_extend_def demo_host_files demo_host_environ
      demo_qattn_found demo_found_fused get_arch_flags_result)

text \<open>
  Claim C6. The override looks at \<open>sys.platform\<close> only to decide whether it is
  \<open>win32\<close>. If it is, then for each of the assembled targets the \<open>nvcc\<close> argument
  list is the former list followed by \<open>-Xcompiler=/MD\<close> and \<open>-Xcompiler=/wd4819\<close>, the
  \<open>cxx\<close> arguments and the sources are as before, nothing is printed, and the extras
  are \<open>triton-windows>=3.3.1\<close> under \<open>triton\<close>. For every other platform the state is
  left as it was and the extras are \<open>triton>=3.2.0\<close> under \<open>triton\<close>.
\<close>

theorem platform_override_effect:
  assumes "extensions w st0 = (exts, st1)"
    and "platform_override plat exts st1 = (extras, st2)"
  shows "(plat = ''win32'' \<longrightarrow>
            list_all
              (\<lambda>e. heap st2 ! nvcc e =
                      heap st1 ! nvcc e @ [''-Xcompiler=/MD'', ''-Xcompiler=/wd4819''] \<and>
                    heap st2 ! cxx e = heap st1 ! cxx e \<and>
                    heap st2 ! sources e = heap st1 ! sources e) exts \<and>
            length (heap st2) = length (heap st1) \<and> stdout st2 = stdout st1 \<and>
            extras = [''triton'' \<mapsto> [''triton-windows>=3.3.1'']]) \<and>
         (plat \<noteq> ''win32'' \<longrightarrow>
            st2 = st1 \<and> extras = [''triton'' \<mapsto> [''triton>=3.2.0'']])"
proof -
  from assms(1) have exts:
    "exts =
       [\<lparr>name = PROJECT_NAME @ ''._qattn'', sources = length (heap st0) + 1,
          cxx = length (heap st0) + 2, nvcc = length (heap st0) + 4\<rparr>,
        \<lparr>name = PROJECT_NAME @ ''._fused'', sources = length (heap st0) + 5,
          cxx = length (heap st0) + 6, nvcc = length (heap st0) + 8\<rparr>]"
    by (simp add: extensions_result)
  from assms(1) have len: "length (heap st1) = length (heap st0) + 9"
    by (auto simp: extensions_result)
  have other: "st2 = st1 \<and> extras = [''triton'' \<mapsto> [''triton>=3.2.0'']]"
    if "plat \<noteq> ''win32''"
    using that assms(2) by (auto simp: platform_override_def)
  have win: "list_all
              (\<lambda>e. heap st2 ! nvcc e =
                      heap st1 ! nvcc e @ [''-Xcompiler=/MD'', ''-Xcompiler=/wd4819''] \<and>
                    heap st2 ! cxx e = heap st1 ! cxx e \<and>
                    heap st2 ! sources e = heap st1 ! sources e) exts \<and>
            length (heap st2) = length (heap st1) \<and> stdout st2 = stdout st1 \<and>
            extras = [''triton'' \<mapsto> [''triton-windows>=3.3.1'']]"
    if "plat = ''win32''"
  proof -
    from that assms(2) have st2: "st2 = override_loop exts st1"
      and ex: "extras = [''triton'' \<mapsto> [''triton-windows>=3.3.1'']]"
      by (auto simp: platform_override_def)
    show ?thesis
      unfolding st2 exts using len ex
      by (simp add: list_extend_def)
  qed
  from win other show ?thesis by blast
qed

text \<open>
  On the example host: as \<open>win32\<close> the two flags end the \<open>nvcc\<close> arguments of both
  targets (lists 4 and 8) and the \<open>cxx\<close> arguments (list 2) stay; as \<open>linux\<close> nothing
  changes.
\<close>

theorem platform_override_effect_witness:
  "heap (snd (platform_override ''win32''
           (fst (extensions (demo_host (release_banner ''12.0'') None) \<lparr>heap = [], stdout = []\<rparr>))
           (snd (extensions (demo_host (release_banner ''12.0'') None) \<lparr>heap = [], stdout = []\<rparr>)))) ! 4 =
     [''-O3'', ''-std=c++17'', ''--use_fast_math'', ''--threads=8'',
      ''-gencode'', ''arch=compute_80,code=sm_80'', ''-gencode'', ''arch=compute_86,code=sm_86'',
      ''-Xcompiler=/MD'', ''-Xcompiler=/wd4819''] \<and>
   heap (snd (platform_override ''win32''
           (fst (extensions (demo_host (release_banner ''12.0'') None) \<lparr>heap = [], stdout = []\<rparr>))
           (snd (extensions (demo_host (release_banner ''12.0'') None) \<lparr>heap = [], stdout = []\<rparr>)))) ! 8 =
     [''-O3'', ''-std=c++17'', ''--use_fast_math'',
      ''-gencode'', ''arch=compute_80,code=sm_80'', ''-gencode'', ''arch=compute_86,code=sm_86'',
      ''-Xcompiler=/MD'', ''-Xcompiler=/wd4819''] \<and>
   heap (snd (platform_override ''win32''
           (fst (extensions (demo_host (release_banner ''12.0'') None) \<lparr>heap = [], stdout = []\<rparr>))
           (snd (extensions (demo_host (release_banner ''12.0'') None) \<lparr>heap = [], stdout = []\<rparr>)))) ! 2 =
     [''-O3'', ''-fopenmp'', ''-std=c++17''] \<and>
   fst (platform_override ''win32''
           (fst (extensions (demo_host (release_banner ''12.0'') None) \<lparr>heap = [], stdout = []\<rparr>))
           (snd (extensions (demo_host (release_banner ''12.0'') None) \<lparr>heap = [], stdout = []\<rparr>))) =
     [''triton'' \<mapsto> [''triton-windows>=3.3.1'']] \<and>
   platform_override ''linux''
       (fst (extensions (demo_host (release_banner ''12.0'') None) \<lparr>heap = [], stdout = []\<rparr>))
       (snd (extensions (demo_host (release_banner ''12.0'') None) \<lparr>heap = [], stdout = []\<rparr>)) =
     ([''triton'' \<mapsto> [''triton>=3.2.0'']],
      snd (extensions (demo_host (release_banner ''12.0'') None) \<lparr>heap = [], stdout = []\<rparr>))"
  using platform_override_effect
      [where plat = "''win32''",
       OF demo_extensions [of "release_banner ''12.0''" None] prod.collapse [symmetric]]
    platform_override_effect
      [where plat = "''linux''",
       OF demo_extensions [of "release_banner ''12.0''" None] prod.collapse [symmetric]]
  by (simp add: demo_extensions prod_eq_iff)

section \<open>Duplicate listing of the instantiation sources\<close>

lemma walk_append:
  "walk stack (xs @ ys) = (case walk stack xs of None \<Rightarrow> None | Some s \<Rightarrow> walk s ys)"
  by (induction stack xs rule: walk.induct) (auto split: node.splits option.splits)

lemma walk_last:
  assumes "walk stack (xs @ [c]) = Some (m # rest)" and "c \<noteq> ''..''"
  shows "\<exists>n up es. walk stack xs = Some (n # up) \<and> follow n = Dir es \<and> map_of es c = Some m"
proof -
  from assms(1) obtain s where s: "walk stack xs = Some s" and w: "walk s [c] = Some (m # rest)"
    by (auto simp: walk_append split: option.splits)
  from w obtain n up where nu: "s = n # up"
    by (cases s) auto
  from w nu assms(2) obtain es where "follow n = Dir es" "map_of es c = Some m"
    by (auto split: node.splits option.splits)
  with s nu show ?thesis by blast
qed

lemma resolve_child:
  assumes "resolve fs (joinpath p c) = Some m" and "c \<noteq> ''..''"
  shows "\<exists>n es. resolve fs p = Some n \<and> follow n = Dir es \<and> map_of es c = Some m"
proof -
  let ?pre = "(if anchor p = [] then cwd fs else []) @ parts p"
  from assms(1) obtain rest where "walk [root fs] (?pre @ [c]) = Some (m # rest)"
    by (auto simp: resolve_def joinpath_def split: option.splits list.splits if_splits)
  from walk_last [OF this assms(2)] obtain n up es
    where "walk [root fs] ?pre = Some (n # up)" "follow n = Dir es" "map_of es c = Some m"
    by blast
  then have "resolve fs p = Some n \<and> follow n = Dir es \<and> map_of es c = Some m"
    by (simp add: resolve_def)
  then show ?thesis by blast
qed

lemma found_below_dir:
  assumes "resolve fs (Path d) = Some r" and "follow r = Dir es"
    and "below es cs n" and "is_file n"
    and "endswith (last cs) ''.cu''" and "\<not> startswith (last cs) ''.''"
  shows "str (foldl joinpath (Path d) cs) \<in> set (found fs d)"
  unfolding found_iff using assms by blast

lemma found_nested:
  assumes sub: "Path d2 = joinpath (Path d1) c" and c: "c \<noteq> ''..''"
    and dir: "resolve fs (Path d2) = Some (Dir es)"
    and fl: "below es cs n" "is_file n" "endswith (last cs) ''.cu''"
      "\<not> startswith (last cs) ''.''"
  shows "str (foldl joinpath (Path d2) cs) \<in> set (found fs d1)"
proof -
  from dir sub have "resolve fs (joinpath (Path d1) c) = Some (Dir es)" by simp
  from resolve_child [OF this c] obtain n1 es1
    where n1: "resolve fs (Path d1) = Some n1" "follow n1 = Dir es1"
      "map_of es1 c = Some (Dir es)"
    by blast
  from n1(3) have "(c, Dir es) \<in> set es1" by (rule map_of_SomeD)
  from this fl(1) have b: "below es1 (c # cs) n" by (rule below.deeper)
  from fl(1) have "cs \<noteq> []" by (rule below_nonempty)
  then have l: "last (c # cs) = last cs" by simp
  from found_below_dir [OF n1(1,2) b fl(2)] fl(3,4) l
  have "str (foldl joinpath (Path d1) (c # cs)) \<in> set (found fs d1)" by simp
  with sub show ?thesis by simp
qed

lemma count_list_twice:
  "s \<in> set xs \<Longrightarrow> s \<in> set ys \<Longrightarrow> 2 \<le> count_list xs s + count_list ys s"
proof -
  assume "s \<in> set xs" "s \<in> set ys"
  then have "count_list xs s \<noteq> 0" "count_list ys s \<noteq> 0"
    by (simp_all add: count_list_0_iff)
  then show ?thesis by arith
qed

lemma qattn_found_twice:
  assumes d: "d = ''csrc/qattn/instantiations_sm80'' \<or> d = ''csrc/qattn/instantiations_sm89''"
    and dir: "resolve fs (Path d) = Some (Dir es)"
    and fl: "below es cs n" "is_file n" "endswith (last cs) ''.cu''"
      "\<not> startswith (last cs) ''.''"
  shows "2 \<le> count_list (qattn_found fs) (str (foldl joinpath (Path d) cs))"
proof -
  let ?s = "str (foldl joinpath (Path d) cs)"
  have own: "?s \<in> set (found fs d)"
    using found_below_dir [OF dir _ fl(1,2,3,4)] by simp
  from d obtain c where c: "Path d = joinpath (Path ''csrc/qattn'') c" "c \<noteq> ''..''"
    by (auto simp: Path_sm80 Path_sm89 Path_qattn joinpath_def)
  from found_nested [OF c dir fl] have parent: "?s \<in> set (found fs ''csrc/qattn'')" .
  from d show ?thesis
  proof
    assume "d = ''csrc/qattn/instantiations_sm80''"
    with own parent have "2 \<le> count_list (found fs ''csrc/qattn'') ?s +
        count_list (found fs ''csrc/qattn/instantiations_sm80'') ?s"
      by (simp add: count_list_twice)
    then show ?thesis by (simp add: qattn_found_def)
  next
    assume "d = ''csrc/qattn/instantiations_sm89''"
    with own parent have "2 \<le> count_list (found fs ''csrc/qattn'') ?s +
        count_list (found fs ''csrc/qattn/instantiations_sm89'') ?s"
      by (simp add: count_list_twice)
    then show ?thesis by (simp add: qattn_found_def)
  qed
qed

text \<open>
  Claim C9, as amended. The sources of \<open>_qattn\<close> are the entry point followed by what
  is found under \<open>csrc/qattn\<close>, under \<open>csrc/qattn/instantiations_sm80\<close> and under
  \<open>csrc/qattn/instantiations_sm89\<close>, one after the other with nothing removed. When
  one of the two instantiation paths denotes a directory that is itself an entry of
  \<open>csrc/qattn\<close> (a real directory, not a link to one), then every entry that is
  reached from it by entering real sub-directories only, that is a regular file (directly
  or through a link), and whose name ends in \<open>.cu\<close> and does not start with a dot,
  has its path in that list at least twice.
\<close>

theorem instantiation_sources_listed_twice:
  assumes "extensions w st0 = (exts, st1)"
    and "d = ''csrc/qattn/instantiations_sm80'' \<or> d = ''csrc/qattn/instantiations_sm89''"
    and "resolve (files w) (Path d) = Some (Dir es)"
    and "below es cs n" and "regular n"
    and "endswith (last cs) ''.cu''" and "\<not> startswith (last cs) ''.''"
  shows "\<exists>q f. exts = [q, f] \<and> name q = ''spas_sage_attn._qattn'' \<and>
     heap st1 ! sources q =
       ''csrc/qattn/pybind.cpp'' #
         found (files w) ''csrc/qattn'' @
         found (files w) ''csrc/qattn/instantiations_sm80'' @
         found (files w) ''csrc/qattn/instantiations_sm89'' \<and>
     2 \<le> count_list (heap st1 ! sources q) (str (foldl joinpath (Path d) cs))"
proof -
  from assms(1) have exts:
    "exts =
       [\<lparr>name = PROJECT_NAME @ ''._qattn'', sources = length (heap st0) + 1,
          cxx = length (heap st0) + 2, nvcc = length (heap st0) + 4\<rparr>,
        \<lparr>name = PROJECT_NAME @ ''._fused'', sources = length (heap st0) + 5,
          cxx = length (heap st0) + 6, nvcc = length (heap st0) + 8\<rparr>]"
    by (simp add: extensions_result)
  from assms(1) have src:
    "heap st1 ! (length (heap st0) + 1) = ''csrc/qattn/pybind.cpp'' # qattn_found (files w)"
    by (auto simp: extensions_result nth_append)
  from assms(5) have reg: "is_file n" by (simp add: is_file_regular)
  have "2 \<le> count_list (qattn_found (files w)) (str (foldl joinpath (Path d) cs))"
    by (rule qattn_found_twice [OF assms(2,3,4) reg assms(6,7)])
  then have "2 \<le> count_list (''csrc/qattn/pybind.cpp'' # qattn_found (files w))
      (str (foldl joinpath (Path d) cs))"
    by simp
  with src show ?thesis
    unfolding exts by (simp add: PROJECT_NAME_def qattn_found_def)
qed

lemma demo_resolve_sm80:
  "resolve (files (demo_host b r)) (Path ''csrc/qattn/instantiations_sm80'') =
     Some (Dir [(''k80.cu'', File []), (''.k.cu'', File [])])"
  by (simp add: demo_host_files demo_files_def csrc_dir_def resolve_def Path_sm80)

lemma demo_below_k80:
  "below [(''k80.cu'', File []), (''.k.cu'', File [])] [''k80.cu''] (File [])"
  by (rule below.entry) simp

text \<open>
  On the example host \<open>csrc/qattn/instantiations_sm80\<close> is a directory holding the
  kernel \<open>k80.cu\<close>, whose path is listed twice.
\<close>

theorem instantiation_sources_listed_twice_witness:
  "resolve (files (demo_host (release_banner ''12.0'') None))
       (Path ''csrc/qattn/instantiations_sm80'') =
     Some (Dir [(''k80.cu'', File []), (''.k.cu'', File [])]) \<and>
   below [(''k80.cu'', File []), (''.k.cu'', File [])] [''k80.cu''] (File []) \<and>
   regular (File []) \<and> endswith ''k80.cu'' ''.cu'' \<and> \<not> startswith ''k80.cu'' ''.'' \<and>
   2 \<le> count_list
         (heap (snd (extensions (demo_host (release_banner ''12.0'') None)
                       \<lparr>heap = [], stdout = []\<rparr>)) ! 1)
         ''csrc/qattn/instantiations_sm80/k80.cu''"
  using instantiation_sources_listed_twice
      [OF demo_extensions [of "release_banner ''12.0''" None] disjI1 [OF refl]
          demo_resolve_sm80 [of "release_banner ''12.0''" None] demo_below_k80]
    demo_resolve_sm80 [of "release_banner ''12.0''" None] demo_below_k80
  by (simp add: is_file_def endswith_def startswith_def demo_extensions str_def Path_sm80
      joinpath_def demo_host_files demo_found_qattn demo_found_sm80 demo_found_sm89)

text \<open>
  Claim C9 as it is stated fails for a file whose name starts with a dot. On the
  example host \<open>csrc/qattn/instantiations_sm80/.k.cu\<close> exists, is a regular file and
  ends in \<open>.cu\<close>, but \<open>collect_sources\<close> leaves hidden files out: the path is not in
  the sources of \<open>_qattn\<close> at all.
\<close>

theorem hidden_instantiation_counterexample:
  "resolve (files (demo_host (release_banner ''12.0'') None))
       (Path ''csrc/qattn/instantiations_sm80/.k.cu'') = Some (File []) \<and>
   is_file (File []) \<and> endswith ''csrc/qattn/instantiations_sm80/.k.cu'' ''.cu'' \<and>
   fst (extensions (demo_host (release_banner ''12.0'') None) \<lparr>heap = [], stdout = []\<rparr>) =
     [\<lparr>name = ''spas_sage_attn._qattn'', sources = 1, cxx = 2, nvcc = 4\<rparr>,
      \<lparr>name = ''spas_sage_attn._fused'', sources = 5, cxx = 6, nvcc = 8\<rparr>] \<and>
   heap (snd (extensions (demo_host (release_banner ''12.0'') None)
                \<lparr>heap = [], stdout = []\<rparr>)) ! 1 =
     [''csrc/qattn/pybind.cpp'', ''csrc/qattn/attn.cu'',
      ''csrc/qattn/instantiations_sm80/k80.cu'', ''csrc/qattn/instantiations_sm80/k80.cu''] \<and>
   count_list
     (heap (snd (extensions (demo_host (release_banner ''12.0'') None)
                   \<lparr>heap = [], stdout = []\<rparr>)) ! 1)
     ''csrc/qattn/instantiations_sm80/.k.cu'' = 0"
  by (simp add: demo_extensions demo_host_files demo_files_def csrc_dir_def resolve_def Path_def
      split_on_def startswith_def endswith_def is_file_def)

section \<open>Emission: the documentation file\<close>











section \<open>The Windows shim: effect on the environment\<close>

lemma configure_elsewhere:
  "system \<noteq> ''Windows'' \<Longrightarrow> configure_for_windows system env = (None, env)"
  by (simp add: configure_for_windows_def)

lemma configure_on_windows:
  "configure_for_windows ''Windows'' env =
     (case env ''PATH'' of
        None \<Rightarrow> (Some (KeyError ''PATH''), env(''TRITON_CACHE_DIR'' \<mapsto> triton_cache_dir env))
      | Some p \<Rightarrow>
          (case env ''CUDA_PATH'' of
             None \<Rightarrow>
               (Some (KeyError ''CUDA_PATH''), env(''TRITON_CACHE_DIR'' \<mapsto> triton_cache_dir env))
           | Some c \<Rightarrow>
               (None, env(''TRITON_CACHE_DIR'' \<mapsto> triton_cache_dir env,
                          ''PATH'' \<mapsto> p @ '';'' @ c @ [CHR 0x5C] @ ''bin''))))"
  by (simp add: configure_for_windows_def Let_def split: option.splits)

text \<open>
  Claim C10, as amended. When \<open>platform.system()\<close> is not \<open>Windows\<close>,
  \<open>configure_for_windows\<close> returns normally and leaves the whole environment as it
  was. On \<open>Windows\<close>, when \<open>PATH\<close> and \<open>CUDA_PATH\<close> are both set, it returns normally,
  sets \<open>TRITON_CACHE_DIR\<close> to the expansion of \<open>%LOCALAPPDATA%\triton_cache\<close>, appends
  \<open>;\<close>, the value of \<open>CUDA_PATH\<close> and \<open>\bin\<close> to \<open>PATH\<close>, and changes no other
  variable; when one of the two is not set it raises \<open>KeyError\<close> for the first that is
  missing, after \<open>TRITON_CACHE_DIR\<close> has been set and with \<open>PATH\<close> as it was.
\<close>

theorem configure_for_windows_effect:
  "(system \<noteq> ''Windows'' \<longrightarrow> configure_for_windows system env = (None, env)) \<and>
   (system = ''Windows'' \<longrightarrow>
      (\<forall>p c. env ''PATH'' = Some p \<longrightarrow> env ''CUDA_PATH'' = Some c \<longrightarrow>
         configure_for_windows system env =
           (None, env(''TRITON_CACHE_DIR'' \<mapsto> triton_cache_dir env,
                      ''PATH'' \<mapsto> p @ '';'' @ c @ [CHR 0x5C] @ ''bin''))) \<and>
      (env ''PATH'' = None \<longrightarrow>
         configure_for_windows system env =
           (Some (KeyError ''PATH''), env(''TRITON_CACHE_DIR'' \<mapsto> triton_cache_dir env))) \<and>
      (\<forall>p. env ''PATH'' = Some p \<longrightarrow> env ''CUDA_PATH'' = None \<longrightarrow>
         configure_for_windows system env =
           (Some (KeyError ''CUDA_PATH''), env(''TRITON_CACHE_DIR'' \<mapsto> triton_cache_dir env))))"
proof (intro conjI impI allI)
  show "configure_for_windows system env = (None, env)" if "system \<noteq> ''Windows''"
    using that by (rule configure_elsewhere)
next
  fix p c
  assume "system = ''Windows''" "env ''PATH'' = Some p" "env ''CUDA_PATH'' = Some c"
  then show "configure_for_windows system env =
      (None, env(''TRITON_CACHE_DIR'' \<mapsto> triton_cache_dir env,
                 ''PATH'' \<mapsto> p @ '';'' @ c @ [CHR 0x5C] @ ''bin''))"
    by (simp add: configure_on_windows)
next
  assume "system = ''Windows''" "env ''PATH'' = None"
  then show "configure_for_windows system env =
      (Some (KeyError ''PATH''), env(''TRITON_CACHE_DIR'' \<mapsto> triton_cache_dir env))"
    by (simp add: configure_on_windows)
next
  fix p
  assume "system = ''Windows''" "env ''PATH'' = Some p" "env ''CUDA_PATH'' = None"
  then show "configure_for_windows system env =
      (Some (KeyError ''CUDA_PATH''), env(''TRITON_CACHE_DIR'' \<mapsto> triton_cache_dir env))"
    by (simp add: configure_on_windows)
qed

text \<open>
  The same environment on a Linux host, where nothing changes, and on a Windows host,
  where the cache directory is set and the toolkit's \<open>bin\<close> directory is appended.
\<close>

theorem configure_for_windows_effect_witness:
  "''Linux'' \<noteq> ''Windows'' \<and>
   configure_for_windows ''Linux''
       [''LOCALAPPDATA'' \<mapsto> ''C:/Local'', ''PATH'' \<mapsto> ''C:/Windows'', ''CUDA_PATH'' \<mapsto> ''C:/CUDA''] =
     (None,
      [''LOCALAPPDATA'' \<mapsto> ''C:/Local'', ''PATH'' \<mapsto> ''C:/Windows'', ''CUDA_PATH'' \<mapsto> ''C:/CUDA'']) \<and>
   configure_for_windows ''Windows''
       [''LOCALAPPDATA'' \<mapsto> ''C:/Local'', ''PATH'' \<mapsto> ''C:/Windows'', ''CUDA_PATH'' \<mapsto> ''C:/CUDA''] =
     (None,
      [''LOCALAPPDATA'' \<mapsto> ''C:/Local'', ''PATH'' \<mapsto> ''C:/Windows'', ''CUDA_PATH'' \<mapsto> ''C:/CUDA'',
       ''TRITON_CACHE_DIR'' \<mapsto> ''C:/Local'' @ [CHR 0x5C] @ ''triton_cache'',
       ''PATH'' \<mapsto> ''C:/Windows;C:/CUDA'' @ [CHR 0x5C] @ ''bin''])"
  using configure_for_windows_effect
      [of "''Linux''"
          "[''LOCALAPPDATA'' \<mapsto> ''C:/Local'', ''PATH'' \<mapsto> ''C:/Windows'', ''CUDA_PATH'' \<mapsto> ''C:/CUDA'']"]
    configure_for_windows_effect
      [of "''Windows''"
          "[''LOCALAPPDATA'' \<mapsto> ''C:/Local'', ''PATH'' \<mapsto> ''C:/Windows'', ''CUDA_PATH'' \<mapsto> ''C:/CUDA'']"]
  by (simp add: triton_cache_dir_def)

text \<open>
  Claim C10 as it is stated fails on a Windows host where \<open>CUDA_PATH\<close> is not set: the
  call raises \<open>KeyError\<close>, and \<open>PATH\<close> is left as it was, with nothing appended.
\<close>

theorem configure_for_windows_keyerror_counterexample:
  "configure_for_windows ''Windows'' [''PATH'' \<mapsto> ''C:/Windows''] =
     (Some (KeyError ''CUDA_PATH''),
      [''PATH'' \<mapsto> ''C:/Windows'',
       ''TRITON_CACHE_DIR'' \<mapsto> ''%LOCALAPPDATA%'' @ [CHR 0x5C] @ ''triton_cache'']) \<and>
   fst (configure_for_windows ''Windows'' [''PATH'' \<mapsto> ''C:/Windows'']) \<noteq> None \<and>
   snd (configure_for_windows ''Windows'' [''PATH'' \<mapsto> ''C:/Windows'']) ''PATH'' =
     Some ''C:/Windows''"
  by (simp add: configure_for_windows_def triton_cache_dir_def)

end
